theory Spec2Isabelle
  imports Complex_Main
begin

section \<open>JavaScript values used by the money-manager page\<close>

text \<open>
  The page \<^verbatim>\<open>src/app/admin/money-manager/page.js\<close> is a single React component.
  Strings are lists of 8-bit characters: the JavaScript strings whose code units are
  all in the range 0 to 255. A JavaScript number is \<open>NaN\<close>, an infinity, or a finite value; a finite double is
  represented by the exact rational it denotes. Overflow to an infinity and underflow to
  zero are part of the conversion from text, the rounding of the mantissa to 53 bits is
  not.
\<close>

datatype jsnum = NaN | PosInf | NegInf | Fin rat

datatype jsval = Undefined | Null | Bool bool | Num jsnum | Str string

definition isFinite :: "jsnum \<Rightarrow> bool" where
  "isFinite n = (case n of Fin _ \<Rightarrow> True | _ \<Rightarrow> False)"

definition js_neg :: "jsnum \<Rightarrow> jsnum" where
  "js_neg n = (case n of NaN \<Rightarrow> NaN | PosInf \<Rightarrow> NegInf | NegInf \<Rightarrow> PosInf | Fin q \<Rightarrow> Fin (- q))"

text \<open>\<^verbatim>\<open>a <= b\<close> on numbers: false as soon as one side is \<open>NaN\<close>.\<close>

definition js_le :: "jsnum \<Rightarrow> jsnum \<Rightarrow> bool" where
  "js_le a b = (case (a, b) of
      (NaN, _) \<Rightarrow> False
    | (_, NaN) \<Rightarrow> False
    | (NegInf, _) \<Rightarrow> True
    | (_, PosInf) \<Rightarrow> True
    | (Fin x, Fin y) \<Rightarrow> x \<le> y
    | _ \<Rightarrow> False)"

subsection \<open>Whitespace and \<^verbatim>\<open>String.prototype.trim\<close>\<close>

text \<open>
  The white space and line terminator code units up to 255: tab, line feed, vertical tab,
  form feed, carriage return, space and the no-break space U+00A0. Both \<^verbatim>\<open>trim\<close> and the
  conversion of a string to a number strip exactly these.
\<close>

definition is_ws :: "char \<Rightarrow> bool" where
  "is_ws c = (c \<in> set [CHR 0x09, CHR 0x0A, CHR 0x0B, CHR 0x0C, CHR 0x0D, CHR 0x20, CHR 0xA0])"

definition trim :: "string \<Rightarrow> string" where
  "trim s = rev (dropWhile is_ws (rev (dropWhile is_ws s)))"

subsection \<open>\<^verbatim>\<open>Number(string)\<close>: the StringNumericLiteral grammar\<close>

definition digit_of :: "char \<Rightarrow> nat option" where
  "digit_of c = (let n = (of_char c :: nat) in
     if 48 \<le> n \<and> n \<le> 57 then Some (n - 48)
     else if 97 \<le> n \<and> n \<le> 102 then Some (n - 87)
     else if 65 \<le> n \<and> n \<le> 70 then Some (n - 55)
     else None)"

definition is_digit :: "nat \<Rightarrow> char \<Rightarrow> bool" where
  "is_digit b c = (case digit_of c of Some d \<Rightarrow> d < b | None \<Rightarrow> False)"

definition digits_in :: "nat \<Rightarrow> string \<Rightarrow> bool" where
  "digits_in b s = (s \<noteq> [] \<and> list_all (is_digit b) s)"

definition radix_value :: "nat \<Rightarrow> string \<Rightarrow> nat" where
  "radix_value b s = foldl (\<lambda>a c. a * b + (case digit_of c of Some d \<Rightarrow> d | None \<Rightarrow> 0)) 0 s"

text \<open>
  The mathematical value of a literal becomes a number: magnitudes from
  \<open>2^1024 - 2^970\<close> on round to an infinity, magnitudes up to \<open>2^-1075\<close> round to zero.
\<close>

definition round_double :: "rat \<Rightarrow> jsnum" where
  "round_double q =
     (if 2 ^ 1024 - 2 ^ 970 \<le> \<bar>q\<bar> then (if q < 0 then NegInf else PosInf)
      else if \<bar>q\<bar> \<le> 1 / 2 ^ 1075 then Fin 0
      else Fin q)"

text \<open>ExponentPart, optional: \<^verbatim>\<open>[eE][+-]?digits\<close>; \<open>None\<close> when the rest is anything else.\<close>

definition exponent_part :: "string \<Rightarrow> int option" where
  "exponent_part r = (case r of
      [] \<Rightarrow> Some 0
    | c # t \<Rightarrow>
        if c = CHR ''e'' \<or> c = CHR ''E'' then
          (case t of
             [] \<Rightarrow> None
           | s # u \<Rightarrow>
               if s = CHR ''+'' then (if digits_in 10 u then Some (int (radix_value 10 u)) else None)
               else if s = CHR ''-'' then (if digits_in 10 u then Some (- int (radix_value 10 u)) else None)
               else if digits_in 10 t then Some (int (radix_value 10 t)) else None)
        else None)"

definition scale10 :: "nat \<Rightarrow> int \<Rightarrow> rat" where
  "scale10 m e = (if 0 \<le> e then of_nat m * 10 ^ nat e else of_nat m / 10 ^ nat (- e))"

text \<open>StrUnsignedDecimalLiteral: \<^verbatim>\<open>Infinity\<close>, \<^verbatim>\<open>d.d?e?\<close>, \<^verbatim>\<open>.de?\<close> or \<^verbatim>\<open>de?\<close>.\<close>

definition unsigned_decimal :: "string \<Rightarrow> jsnum" where
  "unsigned_decimal s =
     (if s = ''Infinity'' then PosInf
      else
        let ip = takeWhile (is_digit 10) s;
            r1 = dropWhile (is_digit 10) s;
            fp = (case r1 of [] \<Rightarrow> [] | c # t \<Rightarrow> if c = CHR ''.'' then takeWhile (is_digit 10) t else []);
            r2 = (case r1 of [] \<Rightarrow> [] | c # t \<Rightarrow> if c = CHR ''.'' then dropWhile (is_digit 10) t else r1)
        in if ip = [] \<and> fp = [] then NaN
           else (case exponent_part r2 of
                   None \<Rightarrow> NaN
                 | Some e \<Rightarrow> round_double (scale10 (radix_value 10 (ip @ fp)) (e - int (length fp)))))"

definition radix_prefix :: "string \<Rightarrow> nat option" where
  "radix_prefix s = (case s of
      a # b # _ \<Rightarrow>
        if a \<noteq> CHR ''0'' then None
        else if b = CHR ''x'' \<or> b = CHR ''X'' then Some 16
        else if b = CHR ''o'' \<or> b = CHR ''O'' then Some 8
        else if b = CHR ''b'' \<or> b = CHR ''B'' then Some 2
        else None
    | _ \<Rightarrow> None)"

definition StringToNumber :: "string \<Rightarrow> jsnum" where
  "StringToNumber str =
     (let s = trim str in
      if s = [] then Fin 0
      else (case radix_prefix s of
              Some b \<Rightarrow>
                if digits_in b (drop 2 s) then round_double (of_nat (radix_value b (drop 2 s))) else NaN
            | None \<Rightarrow>
                if hd s = CHR ''+'' then unsigned_decimal (tl s)
                else if hd s = CHR ''-'' then js_neg (unsigned_decimal (tl s))
                else unsigned_decimal s))"

text \<open>\<^verbatim>\<open>Number(value)\<close> on the primitive values the page meets.\<close>

definition ToNumber :: "jsval \<Rightarrow> jsnum" where
  "ToNumber v = (case v of
      Undefined \<Rightarrow> NaN
    | Null \<Rightarrow> Fin 0
    | Bool b \<Rightarrow> Fin (if b then 1 else 0)
    | Num n \<Rightarrow> n
    | Str s \<Rightarrow> StringToNumber s)"

subsection \<open>\<^verbatim>\<open>toNumber\<close> (page.js, lines 6 to 9)\<close>

definition toNumber :: "jsval \<Rightarrow> jsnum" where
  "toNumber v =
     (let n = (case v of
                 Str s \<Rightarrow> ToNumber (Str (filter (\<lambda>c. c \<noteq> CHR '','') s))
               | _ \<Rightarrow> ToNumber v)
      in if isFinite n then n else Fin 0)"

subsection \<open>Truthiness and text conversions\<close>

text \<open>
  An optional string is \<open>None\<close> when the property is absent (\<^verbatim>\<open>undefined\<close>). It is
  falsy when absent or empty.
\<close>

definition truthy :: "string option \<Rightarrow> bool" where
  "truthy v = (case v of None \<Rightarrow> False | Some s \<Rightarrow> s \<noteq> [])"

text \<open>\<^verbatim>\<open>a || b\<close> on optional strings.\<close>

definition js_or :: "string option \<Rightarrow> string option \<Rightarrow> string option" where
  "js_or a b = (if truthy a then a else b)"

text \<open>\<^verbatim>\<open>a || ""\<close>.\<close>

definition or_empty :: "string option \<Rightarrow> string" where
  "or_empty v = (case v of None \<Rightarrow> [] | Some s \<Rightarrow> s)"

text \<open>An optional string inside a template literal.\<close>

definition template_str :: "string option \<Rightarrow> string" where
  "template_str v = (case v of None \<Rightarrow> ''undefined'' | Some s \<Rightarrow> s)"

definition digit_char :: "nat \<Rightarrow> char" where
  "digit_char d = char_of (48 + d)"

fun show_nat :: "nat \<Rightarrow> string" where
  "show_nat n = (if n < 10 then [digit_char n] else show_nat (n div 10) @ [digit_char (n mod 10)])"

declare show_nat.simps [simp del]

definition show_int :: "int \<Rightarrow> string" where
  "show_int i = (if i < 0 then CHR ''-'' # show_nat (nat (- i)) else show_nat (nat i))"

text \<open>\<^verbatim>\<open>String(n).padStart(2, "0")\<close>.\<close>

definition pad2 :: "nat \<Rightarrow> string" where
  "pad2 n = (let s = show_nat n in if length s < 2 then CHR ''0'' # s else s)"

section \<open>Dates\<close>

text \<open>
  A valid \<^verbatim>\<open>Date\<close> is its time value: the milliseconds since 1 January 1970, 00:00 UTC.
  The local fields that the page reads and sets are computed from the time value by the
  functions of the ECMAScript specification (\<open>Day\<close>, \<open>DayFromYear\<close>, \<open>YearFromTime\<close>,
  \<open>MonthFromTime\<close>, \<open>DateFromTime\<close>, \<open>HourFromTime\<close>, \<open>MakeTime\<close>, \<open>MakeDay\<close>,
  \<open>MakeDate\<close>, \<open>LocalTime\<close>, \<open>UTC\<close>), in the proleptic Gregorian calendar. \<open>TimeClip\<close>
  is left out: it is the identity on the time values of the years 1970 to 9999 and of
  many more, and only these occur with a clock reading of these years.
\<close>

type_synonym jsdate = int

record date_range =
  startDate :: jsdate
  endDate :: jsdate


subsection \<open>Days, years and months\<close>

definition msPerDay :: int where
  "msPerDay = 86400000"

definition Day :: "int \<Rightarrow> int" where
  "Day t = t div msPerDay"

definition TimeWithinDay :: "int \<Rightarrow> int" where
  "TimeWithinDay t = t mod msPerDay"

definition DaysInYear :: "int \<Rightarrow> int" where
  "DaysInYear y =
     (if y mod 4 \<noteq> 0 then 365 else if y mod 100 \<noteq> 0 then 366
      else if y mod 400 \<noteq> 0 then 365 else 366)"

definition DayFromYear :: "int \<Rightarrow> int" where
  "DayFromYear y =
     365 * (y - 1970) + (y - 1969) div 4 - (y - 1901) div 100 + (y - 1601) div 400"

text \<open>
  \<open>YearFromTime\<close> is the largest year that starts at or before the time value. It is
  found from the estimate \<open>1970 + d div 365\<close> for the day \<open>d\<close>, which is never too small
  from 1970 on and never too large before, by stepping to the year that holds the day.
\<close>

function year_down :: "int \<Rightarrow> int \<Rightarrow> int" where
  "year_down d y = (if 1970 < y \<and> d < DayFromYear y then year_down d (y - 1) else y)"
  by pat_completeness auto

termination year_down
  by (relation "measure (\<lambda>(d, y). nat (y - 1970))") auto

declare year_down.simps [simp del]

function year_up :: "int \<Rightarrow> int \<Rightarrow> int" where
  "year_up d y = (if y < 1969 \<and> DayFromYear (y + 1) \<le> d then year_up d (y + 1) else y)"
  by pat_completeness auto

termination year_up
  by (relation "measure (\<lambda>(d, y). nat (1969 - y))") auto

declare year_up.simps [simp del]

definition YearFromDay :: "int \<Rightarrow> int" where
  "YearFromDay d = (if 0 \<le> d then year_down d (1970 + d div 365) else year_up d (1970 + d div 365))"

definition YearFromTime :: "int \<Rightarrow> int" where
  "YearFromTime t = YearFromDay (Day t)"

definition InLeapYear :: "int \<Rightarrow> bool" where
  "InLeapYear t = (DaysInYear (YearFromTime t) = 366)"

definition DayWithinYear :: "int \<Rightarrow> int" where
  "DayWithinYear t = Day t - DayFromYear (YearFromTime t)"

text \<open>The days of a year before the first of the month \<open>m\<close> (from 0 to 11).\<close>

definition days_before_month :: "bool \<Rightarrow> int \<Rightarrow> int" where
  "days_before_month leap m =
     (if m \<le> 0 then 0 else if m = 1 then 31
      else (if leap then 1 else 0) +
           (if m = 2 then 59 else if m = 3 then 90 else if m = 4 then 120
            else if m = 5 then 151 else if m = 6 then 181 else if m = 7 then 212
            else if m = 8 then 243 else if m = 9 then 273 else if m = 10 then 304
            else 334))"

definition month_of_day :: "bool \<Rightarrow> int \<Rightarrow> int" where
  "month_of_day leap d =
     (if d < days_before_month leap 1 then 0 else if d < days_before_month leap 2 then 1
      else if d < days_before_month leap 3 then 2 else if d < days_before_month leap 4 then 3
      else if d < days_before_month leap 5 then 4 else if d < days_before_month leap 6 then 5
      else if d < days_before_month leap 7 then 6 else if d < days_before_month leap 8 then 7
      else if d < days_before_month leap 9 then 8 else if d < days_before_month leap 10 then 9
      else if d < days_before_month leap 11 then 10 else 11)"

definition MonthFromTime :: "int \<Rightarrow> int" where
  "MonthFromTime t = month_of_day (InLeapYear t) (DayWithinYear t)"

definition DateFromTime :: "int \<Rightarrow> int" where
  "DateFromTime t = DayWithinYear t - days_before_month (InLeapYear t) (MonthFromTime t) + 1"

definition HourFromTime :: "int \<Rightarrow> int" where
  "HourFromTime t = (t div 3600000) mod 24"

definition MinFromTime :: "int \<Rightarrow> int" where
  "MinFromTime t = (t div 60000) mod 60"

definition SecFromTime :: "int \<Rightarrow> int" where
  "SecFromTime t = (t div 1000) mod 60"

definition msFromTime :: "int \<Rightarrow> int" where
  "msFromTime t = t mod 1000"

definition MakeTime :: "int \<Rightarrow> int \<Rightarrow> int \<Rightarrow> int \<Rightarrow> int" where
  "MakeTime h mi s ms = h * 3600000 + mi * 60000 + s * 1000 + ms"

text \<open>
  \<open>MakeDay\<close>: a month index outside 0 to 11 carries into the year; the result is the day
  number of the date \<open>dt\<close> of that month.
\<close>

definition MakeDay :: "int \<Rightarrow> int \<Rightarrow> int \<Rightarrow> int" where
  "MakeDay y m dt =
     (let ym = y + m div 12; mn = m mod 12
      in DayFromYear ym + days_before_month (DaysInYear ym = 366) mn + dt - 1)"

definition MakeDate :: "int \<Rightarrow> int \<Rightarrow> int" where
  "MakeDate dy tm = dy * msPerDay + tm"

subsection \<open>The time zone of the browser\<close>

text \<open>
  The time zone is given by two offsets in milliseconds. \<open>tz_offset z t\<close> is the offset
  from UTC in force at the instant \<open>t\<close>. \<open>tz_local_offset z lt\<close> is the offset by which
  the local time value \<open>lt\<close> is interpreted; for a local time that a change of the clocks
  skips or repeats, ECMAScript takes the offset in force before the change.
\<close>

record time_zone =
  tz_offset :: "int \<Rightarrow> int"
  tz_local_offset :: "int \<Rightarrow> int"

definition LocalTime :: "time_zone \<Rightarrow> int \<Rightarrow> int" where
  "LocalTime z t = t + tz_offset z t"

definition UTC :: "time_zone \<Rightarrow> int \<Rightarrow> int" where
  "UTC z lt = lt - tz_local_offset z lt"

definition getFullYear :: "time_zone \<Rightarrow> jsdate \<Rightarrow> int" where
  "getFullYear z t = YearFromTime (LocalTime z t)"

definition getMonth :: "time_zone \<Rightarrow> jsdate \<Rightarrow> int" where
  "getMonth z t = MonthFromTime (LocalTime z t)"

definition getDate :: "time_zone \<Rightarrow> jsdate \<Rightarrow> int" where
  "getDate z t = DateFromTime (LocalTime z t)"

definition getHours :: "time_zone \<Rightarrow> jsdate \<Rightarrow> int" where
  "getHours z t = HourFromTime (LocalTime z t)"

definition getMinutes :: "time_zone \<Rightarrow> jsdate \<Rightarrow> int" where
  "getMinutes z t = MinFromTime (LocalTime z t)"

definition getSeconds :: "time_zone \<Rightarrow> jsdate \<Rightarrow> int" where
  "getSeconds z t = SecFromTime (LocalTime z t)"

definition getMilliseconds :: "time_zone \<Rightarrow> jsdate \<Rightarrow> int" where
  "getMilliseconds z t = msFromTime (LocalTime z t)"

text \<open>
  \<^verbatim>\<open>new Date(y, m, 1)\<close>: the local time 00:00:00.000 on the first of the month, a year
  from 0 to 99 meaning 1900 + y, converted to a time value.
\<close>

definition Date_first :: "time_zone \<Rightarrow> int \<Rightarrow> int \<Rightarrow> jsdate" where
  "Date_first z y m =
     (let yr = (if 0 \<le> y \<and> y \<le> 99 then 1900 + y else y)
      in UTC z (MakeDate (MakeDay yr m 1) (MakeTime 0 0 0 0)))"

text \<open>
  \<^verbatim>\<open>d.setHours(h, mi, s, ms)\<close>: the given time on the local day of \<open>d\<close>, converted to a
  time value.
\<close>

definition setHours :: "time_zone \<Rightarrow> int \<Rightarrow> int \<Rightarrow> int \<Rightarrow> int \<Rightarrow> jsdate \<Rightarrow> jsdate" where
  "setHours z h mi s ms t = UTC z (MakeDate (Day (LocalTime z t)) (MakeTime h mi s ms))"

subsection \<open>\<^verbatim>\<open>getPeriodDateRange\<close> (lines 28 to 41); \<open>now\<close> is the clock reading\<close>

definition getPeriodDateRange :: "time_zone \<Rightarrow> jsdate \<Rightarrow> string \<Rightarrow> date_range" where
  "getPeriodDateRange z now period =
     (let startDate0 =
            (if period = ''monthly'' then Date_first z (getFullYear z now) (getMonth z now)
             else if period = ''6months'' then Date_first z (getFullYear z now) (getMonth z now - 5)
             else Date_first z (getFullYear z now) 0);
          endDate1 = setHours z 23 59 59 999 now;
          startDate1 = setHours z 0 0 0 0 startDate0
      in \<lparr>startDate = startDate1, endDate = endDate1\<rparr>)"

text \<open>The date part of \<^verbatim>\<open>formatDateInput\<close> (lines 15 to 18).\<close>

definition format_ymd :: "time_zone \<Rightarrow> jsdate \<Rightarrow> string" where
  "format_ymd z dt =
     show_int (getFullYear z dt) @ ''-'' @ pad2 (nat (getMonth z dt + 1)) @ ''-'' @
     pad2 (nat (getDate z dt))"

section \<open>Records of the page\<close>

text \<open>
  An expense as the server sends it, seen through the properties the page reads:
  \<^verbatim>\<open>_id\<close>, \<^verbatim>\<open>id\<close>, \<^verbatim>\<open>title\<close>, \<^verbatim>\<open>description\<close>, \<^verbatim>\<open>amount\<close>, \<^verbatim>\<open>expenseDate\<close>,
  \<^verbatim>\<open>date\<close>, \<^verbatim>\<open>createdAt\<close>.
\<close>

record expense =
  e_uid :: "string option"
  e_id :: "string option"
  e_title :: "string option"
  e_description :: "string option"
  e_amount :: jsval
  e_expenseDate :: "string option"
  e_date :: "string option"
  e_createdAt :: "string option"

record form =
  f_title :: string
  f_description :: string
  f_amount :: string
  f_expenseDate :: string

text \<open>The argument object of \<^verbatim>\<open>performSaveExpense\<close>.\<close>

record save_payload =
  p_isEdit :: bool
  p_id :: "string option"
  p_title :: string
  p_description :: string
  p_amount :: jsnum
  p_expenseDate :: string

text \<open>
  \<^verbatim>\<open>confirmDialog\<close>: the tag \<^verbatim>\<open>type\<close> (\<^verbatim>\<open>"update"\<close> or \<^verbatim>\<open>"delete"\<close>) with its
  \<^verbatim>\<open>payload\<close>. The title, message and button labels are presentation only.
\<close>

datatype confirm_dialog = UpdateDialog save_payload | DeleteDialog expense

datatype toast_type = ToastSuccess | ToastError

section \<open>The remote API\<close>

datatype http_method = GET | POST | PUT | DELETE

text \<open>The JSON body of a create or update request (lines 260 to 265).\<close>

record save_body =
  b_title :: string
  b_description :: "string option"
  b_amount :: jsnum
  b_expenseDate :: string

text \<open>
  The URL after the base: \<^verbatim>\<open>/api/general-expenses/period?period=p\<close>,
  \<^verbatim>\<open>/api/general-expenses?startDate=s&endDate=e&page=n&limit=l\<close> (the two dates stand
  for their ISO strings), \<^verbatim>\<open>/api/general-expenses\<close> and \<^verbatim>\<open>/api/general-expenses/id\<close>.
\<close>

datatype endpoint =
    PeriodEP string
  | ListEP jsdate jsdate nat nat
  | CollectionEP
  | ItemEP string

record request =
  rmethod :: http_method
  endpoint :: endpoint
  rbody :: "save_body option"

text \<open>
  A parsed response body, seen through what the page reads of it: \<^verbatim>\<open>message\<close>,
  \<^verbatim>\<open>dateRange.startDate\<close>, \<^verbatim>\<open>dateRange.endDate\<close>, \<^verbatim>\<open>data\<close> (present when it is an
  array) and \<^verbatim>\<open>pagination.pages\<close>.
\<close>

record json_body =
  j_message :: "string option"
  j_rangeStart :: "string option"
  j_rangeEnd :: "string option"
  j_data :: "expense list option"
  j_pages :: jsval

text \<open>
  A response: \<^verbatim>\<open>text()\<close> resolves to a string or rejects (\<open>None\<close>), \<^verbatim>\<open>json()\<close>
  resolves to a body or rejects with an error message (\<open>Inl\<close>).
\<close>

record response =
  status :: nat
  text_body :: "string option"
  json_result :: "string + json_body"

definition ok :: "response \<Rightarrow> bool" where
  "ok res = (200 \<le> status res \<and> status res \<le> 299)"

text \<open>\<^verbatim>\<open>fetch\<close> rejects with an error message or resolves to a response.\<close>

datatype fetch_result = Rejected string | Resolved response

text \<open>
  What the page depends on from outside: the configured base URL, the server (its answer
  to the request with a given index in the session), the clock and the time zone of the
  browser, and the two built-in conversions \<^verbatim>\<open>new Date(string)\<close> (\<open>None\<close> for an invalid date) and \<^verbatim>\<open>String(number)\<close>.
\<close>

record env =
  API_BASE_URL :: "string option"
  server :: "nat \<Rightarrow> request \<Rightarrow> fetch_result"
  clock :: "nat \<Rightarrow> jsdate"
  zone :: time_zone
  Date_parse :: "string \<Rightarrow> jsdate option"
  Number_toString :: "jsnum \<Rightarrow> string"

text \<open>Everything the page does to the outside, in order.\<close>

datatype event =
    Fetch request
  | Response nat
  | ReadText
  | ReadJson
  | Alert string
  | Redirect string
  | ConsoleWarn string
  | ConsoleError string string

section \<open>Component state\<close>

text \<open>
  The \<^verbatim>\<open>useState\<close> cells of \<^verbatim>\<open>MoneyManagerPage\<close>, the number of requests sent so far
  and the log of outside effects. A function of the component reads the state of the
  render that created it (the argument \<open>r\<close> below) and writes through the setters to the
  current state (the argument \<open>w\<close>). An asynchronous function is followed to its end:
  each response it awaits is delivered before anything else happens to the page.
\<close>

record state =
  selectedPeriod :: string
  loading :: bool
  expenses :: "expense list"
  expensesDateRange :: "date_range option"
  periodGroups :: "expense list"
  showExpenseModal :: bool
  editingExpense :: "expense option"
  expenseForm :: form
  formError :: string
  saving :: bool
  toast :: "(toast_type \<times> string) option"
  confirmDialog :: "confirm_dialog option"
  nreq :: nat
  trace :: "event list"

definition apiPeriod :: "state \<Rightarrow> string" where
  "apiPeriod r = (if selectedPeriod r = ''sixMonths'' then ''6months'' else selectedPeriod r)"

definition initial :: "env \<Rightarrow> state" where
  "initial env =
     \<lparr>selectedPeriod = ''monthly'', loading = True, expenses = [], expensesDateRange = None,
      periodGroups = [], showExpenseModal = False, editingExpense = None,
      expenseForm = \<lparr>f_title = [], f_description = [], f_amount = [],
                     f_expenseDate = format_ymd (zone env) (clock env 0)\<rparr>,
      formError = [], saving = False, toast = None, confirmDialog = None,
      nreq = 0, trace = []\<rparr>"

definition log :: "event list \<Rightarrow> state \<Rightarrow> state" where
  "log evs w = w\<lparr>trace := trace w @ evs\<rparr>"

text \<open>\<^verbatim>\<open>showToast\<close> (lines 78 to 88); the dismissal timer is not part of the state.\<close>

definition showToast :: "string \<Rightarrow> toast_type \<Rightarrow> state \<Rightarrow> state" where
  "showToast message ty w = w\<lparr>toast := Some (ty, message)\<rparr>"

definition handleLogout :: "state \<Rightarrow> state" where
  "handleLogout w = log [Redirect ''/admin/login''] w"

text \<open>\<^verbatim>\<open>formatDateInput\<close> (lines 11 to 19) on an optional date string.\<close>

definition formatDateInput :: "env \<Rightarrow> string option \<Rightarrow> string" where
  "formatDateInput env v =
     (if \<not> truthy v then []
      else (case Date_parse env (or_empty v) of None \<Rightarrow> [] | Some dt \<Rightarrow> format_ymd (zone env) dt))"

text \<open>\<^verbatim>\<open>String(v ?? "")\<close>.\<close>

definition String_nullish :: "env \<Rightarrow> jsval \<Rightarrow> string" where
  "String_nullish env v = (case v of
      Undefined \<Rightarrow> []
    | Null \<Rightarrow> []
    | Bool b \<Rightarrow> (if b then ''true'' else ''false'')
    | Num n \<Rightarrow> Number_toString env n
    | Str s \<Rightarrow> s)"

definition openCreateModal :: "env \<Rightarrow> state \<Rightarrow> state" where
  "openCreateModal env w =
     w\<lparr>editingExpense := None,
       expenseForm := \<lparr>f_title = [], f_description = [], f_amount = [],
                       f_expenseDate = format_ymd (zone env) (clock env (nreq w))\<rparr>,
       formError := [],
       showExpenseModal := True\<rparr>"

text \<open>\<^verbatim>\<open>openEditModal\<close> (lines 121 to 131); \<open>None\<close> is a null row.\<close>

definition openEditModal :: "env \<Rightarrow> expense option \<Rightarrow> state \<Rightarrow> state" where
  "openEditModal env ex w =
     w\<lparr>editingExpense := ex,
       expenseForm :=
         (case ex of
            None \<Rightarrow> \<lparr>f_title = [], f_description = [], f_amount = [], f_expenseDate = []\<rparr>
          | Some e \<Rightarrow>
              \<lparr>f_title = or_empty (e_title e),
               f_description = or_empty (e_description e),
               f_amount = String_nullish env (e_amount e),
               f_expenseDate =
                 formatDateInput env (js_or (js_or (e_expenseDate e) (e_date e)) (e_createdAt e))\<rparr>),
       formError := [],
       showExpenseModal := True\<rparr>"

subsection \<open>\<^verbatim>\<open>closeModal\<close> (lines 133 to 138)\<close>

definition closeModal :: "state \<Rightarrow> state \<Rightarrow> state" where
  "closeModal r w =
     (if saving r then w
      else w\<lparr>showExpenseModal := False, editingExpense := None, formError := []\<rparr>)"

section \<open>Remote calls\<close>

text \<open>
  \<^verbatim>\<open>await fetch(url, options)\<close>: the request is logged, the server answers the request
  with the next index, and the status of a response that arrives is logged. The bearer
  token header is the same on every request and is left out.
\<close>

definition fetch :: "env \<Rightarrow> request \<Rightarrow> state \<Rightarrow> fetch_result \<times> state" where
  "fetch env q w =
     (let res = server env (nreq w) q
      in (res, w\<lparr>nreq := Suc (nreq w),
                 trace := trace w @ Fetch q #
                   (case res of Rejected _ \<Rightarrow> [] | Resolved rs \<Rightarrow> [Response (status rs)])\<rparr>))"

text \<open>\<^verbatim>\<open>await res.text().catch(() => "")\<close>.\<close>

definition read_text :: "response \<Rightarrow> state \<Rightarrow> string \<times> state" where
  "read_text res w = (or_empty (text_body res), log [ReadText] w)"

text \<open>\<^verbatim>\<open>await res.json()\<close>.\<close>

definition read_json :: "response \<Rightarrow> state \<Rightarrow> (string + json_body) \<times> state" where
  "read_json res w = (json_result res, log [ReadJson] w)"

text \<open>The two statements of every 401 branch (for example lines 160 and 161).\<close>

definition unauthorized :: "state \<Rightarrow> state" where
  "unauthorized w = log [Alert ''Unauthorized: Please login again.'', Redirect ''/admin/login''] w"

text \<open>How a block of statements ends: by a throw, by \<^verbatim>\<open>return\<close>, or at its last statement.\<close>

datatype 'a outcome = Throw string | Return | Normal 'a

definition period_request :: "string \<Rightarrow> request" where
  "period_request p = \<lparr>rmethod = GET, endpoint = PeriodEP p, rbody = None\<rparr>"

definition expenses_request :: "jsdate \<Rightarrow> jsdate \<Rightarrow> nat \<Rightarrow> nat \<Rightarrow> request" where
  "expenses_request s e page limit = \<lparr>rmethod = GET, endpoint = ListEP s e page limit, rbody = None\<rparr>"

text \<open>\<^verbatim>\<open>Number(expJson?.pagination?.pages) || 1\<close> (line 216).\<close>

definition pages_of :: "json_body \<Rightarrow> jsnum" where
  "pages_of j = (let n = ToNumber (j_pages j) in if n = NaN \<or> n = Fin 0 then Fin 1 else n)"

text \<open>\<^verbatim>\<open>Array.isArray(json?.data) ? json.data : []\<close> (lines 176 and 213).\<close>

definition data_of :: "json_body \<Rightarrow> expense list" where
  "data_of j = (case j_data j of None \<Rightarrow> [] | Some l \<Rightarrow> l)"

subsection \<open>The pagination loop of \<^verbatim>\<open>fetchAll\<close> (lines 187 to 220)\<close>

function page_loop ::
  "env \<Rightarrow> jsdate \<Rightarrow> jsdate \<Rightarrow> expense list \<Rightarrow> nat \<Rightarrow> jsnum \<Rightarrow> state \<Rightarrow> expense list outcome \<times> state"
where
  "page_loop env rangeStart rangeEnd all page pages w =
     (if js_le (Fin (of_nat page)) pages \<and> page \<le> 50 then
        (case fetch env (expenses_request rangeStart rangeEnd page 100) w of
           (Rejected m, w1) \<Rightarrow> (Throw m, w1)
         | (Resolved expRes, w1) \<Rightarrow>
             if status expRes = 401 then (Return, unauthorized w1)
             else if \<not> ok expRes then
               (case read_text expRes w1 of
                  (t, w2) \<Rightarrow>
                    (Throw (''Expenses request failed ('' @ show_nat (status expRes) @ ''). '' @ t), w2))
             else
               (case read_json expRes w1 of
                  (Inl m, w2) \<Rightarrow> (Throw m, w2)
                | (Inr expJson, w2) \<Rightarrow>
                    if data_of expJson = [] then (Normal (all @ data_of expJson), w2)
                    else page_loop env rangeStart rangeEnd (all @ data_of expJson) (page + 1)
                           (pages_of expJson) w2))
      else (Normal all, w))"
  by pat_completeness auto
termination
  by (relation "measure (\<lambda>(env, rangeStart, rangeEnd, all, page, pages, w). 51 - page)") auto

declare page_loop.simps [simp del]

subsection \<open>\<^verbatim>\<open>fetchAll\<close> (lines 140 to 231)\<close>

text \<open>Lines 171 to 174: the server's date when it is present and valid, else null.\<close>

definition server_date :: "env \<Rightarrow> string option \<Rightarrow> jsdate option" where
  "server_date env raw = (if truthy raw then Date_parse env (or_empty raw) else None)"

text \<open>
  Lines 180 to 182: \<^verbatim>\<open>startDate || fallback.startDate\<close> and the same for the end;
  \<open>now\<close> is the clock reading inside \<^verbatim>\<open>getPeriodDateRange\<close>.
\<close>

definition resolve_range :: "env \<Rightarrow> string \<Rightarrow> json_body \<Rightarrow> jsdate \<Rightarrow> date_range" where
  "resolve_range env period periodJson now =
     (let fallback = getPeriodDateRange (zone env) now period
      in \<lparr>startDate = (case server_date env (j_rangeStart periodJson) of
                         Some d \<Rightarrow> d | None \<Rightarrow> startDate fallback),
          endDate = (case server_date env (j_rangeEnd periodJson) of
                       Some d \<Rightarrow> d | None \<Rightarrow> endDate fallback)\<rparr>)"

text \<open>The body of the \<^verbatim>\<open>try\<close> block (lines 148 to 225).\<close>

definition fetchAll_try :: "env \<Rightarrow> state \<Rightarrow> state \<Rightarrow> unit outcome \<times> state" where
  "fetchAll_try env r w =
     (case fetch env (period_request (apiPeriod r)) (w\<lparr>loading := True\<rparr>) of
        (Rejected m, w1) \<Rightarrow> (Throw m, w1)
      | (Resolved periodRes, w1) \<Rightarrow>
          if status periodRes = 401 then (Return, unauthorized w1)
          else if \<not> ok periodRes then
            (case read_text periodRes w1 of
               (t, w2) \<Rightarrow>
                 (Throw (''Period request failed ('' @ show_nat (status periodRes) @ ''). '' @ t), w2))
          else
            (case read_json periodRes w1 of
               (Inl m, w2) \<Rightarrow> (Throw m, w2)
             | (Inr periodJson, w2) \<Rightarrow>
                 (let w3 = w2\<lparr>periodGroups := data_of periodJson\<rparr>;
                      range = resolve_range env (apiPeriod r) periodJson (clock env (nreq w3))
                  in case page_loop env (startDate range) (endDate range) [] 1 (Fin 1) w3 of
                       (Throw m, w4) \<Rightarrow> (Throw m, w4)
                     | (Return, w4) \<Rightarrow> (Return, w4)
                     | (Normal all, w4) \<Rightarrow>
                         (Normal (), w4\<lparr>expenses := all, expensesDateRange := Some range,
                                         loading := False\<rparr>))))"

definition fetchAll :: "env \<Rightarrow> state \<Rightarrow> state \<Rightarrow> state" where
  "fetchAll env r w =
     (if \<not> truthy (API_BASE_URL env) then
        (log [ConsoleWarn ''API base URL is not set. Cannot fetch money manager data.''] w)
          \<lparr>loading := False\<rparr>
      else
        (case fetchAll_try env r w of
           (Throw m, w1) \<Rightarrow>
             (showToast (''Failed to load money manager data: '' @ m) ToastError
                (log [ConsoleError ''Money manager load failed:'' m] w1))\<lparr>loading := False\<rparr>
         | (_, w1) \<Rightarrow> w1))"

subsection \<open>\<^verbatim>\<open>performSaveExpense\<close> (lines 239 to 290)\<close>

definition save_request :: "save_payload \<Rightarrow> request" where
  "save_request p =
     \<lparr>rmethod = (if p_isEdit p then PUT else POST),
      endpoint = (if p_isEdit p then ItemEP (template_str (p_id p)) else CollectionEP),
      rbody = Some \<lparr>b_title = p_title p,
                    b_description = (if p_description p = [] then None else Some (p_description p)),
                    b_amount = p_amount p,
                    b_expenseDate = p_expenseDate p\<rparr>\<rparr>"

text \<open>\<^verbatim>\<open>json?.message || fallback\<close> after \<^verbatim>\<open>await res.json().catch(() => null)\<close>.\<close>

definition message_or :: "string + json_body \<Rightarrow> string \<Rightarrow> string" where
  "message_or js fallback = (case js of
      Inl _ \<Rightarrow> fallback
    | Inr j \<Rightarrow> (if truthy (j_message j) then or_empty (j_message j) else fallback))"

text \<open>\<^verbatim>\<open>err.message || fallback\<close>.\<close>

definition nonempty_or :: "string \<Rightarrow> string \<Rightarrow> string" where
  "nonempty_or m fallback = (if m = [] then fallback else m)"

definition performSaveExpense_try :: "env \<Rightarrow> state \<Rightarrow> save_payload \<Rightarrow> state \<Rightarrow> unit outcome \<times> state" where
  "performSaveExpense_try env r p w =
     (case fetch env (save_request p) (w\<lparr>saving := True\<rparr>) of
        (Rejected m, w1) \<Rightarrow> (Throw m, w1)
      | (Resolved res, w1) \<Rightarrow>
          if status res = 401 then (Return, unauthorized w1)
          else if \<not> ok res then
            (case read_json res w1 of
               (js, w2) \<Rightarrow>
                 (Throw (message_or js (''Request failed ('' @ show_nat (status res) @ '')'')), w2))
          else
            (let w2 = w1\<lparr>confirmDialog := None\<rparr>;
                 w3 = closeModal r w2;
                 w4 = fetchAll env r w3
             in (Normal (),
                 showToast (if p_isEdit p then ''Expense updated successfully.''
                            else ''Expense created successfully.'') ToastSuccess w4)))"

definition performSaveExpense :: "env \<Rightarrow> state \<Rightarrow> save_payload \<Rightarrow> state \<Rightarrow> state" where
  "performSaveExpense env r p w =
     (if \<not> truthy (API_BASE_URL env) then w\<lparr>formError := ''API base URL is not configured.''\<rparr>
      else
        (case performSaveExpense_try env r p w of
           (Throw m, w1) \<Rightarrow>
             (showToast (nonempty_or m ''Failed to save expense.'') ToastError
                ((log [ConsoleError ''Save expense failed:'' m] w1)
                   \<lparr>formError := nonempty_or m ''Failed to save expense.''\<rparr>))\<lparr>saving := False\<rparr>
         | (_, w1) \<Rightarrow> w1\<lparr>saving := False\<rparr>))"

subsection \<open>\<^verbatim>\<open>handleSaveExpense\<close> (lines 292 to 332)\<close>

text \<open>\<^verbatim>\<open>editingExpense?._id || editingExpense?.id\<close>; also line 335.\<close>

definition expense_id :: "expense option \<Rightarrow> string option" where
  "expense_id e = (case e of None \<Rightarrow> None | Some x \<Rightarrow> js_or (e_uid x) (e_id x))"

definition handleSaveExpense :: "env \<Rightarrow> state \<Rightarrow> state \<Rightarrow> state" where
  "handleSaveExpense env r w =
     (let w1 = w\<lparr>formError := []\<rparr>;
          title = trim (f_title (expenseForm r));
          description = trim (f_description (expenseForm r));
          amount = toNumber (Str (f_amount (expenseForm r)));
          expenseDate = f_expenseDate (expenseForm r)
      in if title = [] then w1\<lparr>formError := ''Title is required.''\<rparr>
         else if expenseDate = [] then w1\<lparr>formError := ''Expense date is required.''\<rparr>
         else if \<not> isFinite amount \<or> js_le amount (Fin 0) then
           w1\<lparr>formError := ''Amount must be a positive number.''\<rparr>
         else
           (let isEdit = truthy (expense_id (editingExpense r));
                payload = \<lparr>p_isEdit = isEdit, p_id = expense_id (editingExpense r),
                           p_title = title, p_description = description,
                           p_amount = amount, p_expenseDate = expenseDate\<rparr>
            in if isEdit then w1\<lparr>confirmDialog := Some (UpdateDialog payload)\<rparr>
               else performSaveExpense env r payload w1))"

subsection \<open>\<^verbatim>\<open>performDeleteExpense\<close> (lines 334 to 370)\<close>

definition delete_request :: "string \<Rightarrow> request" where
  "delete_request i = \<lparr>rmethod = DELETE, endpoint = ItemEP i, rbody = None\<rparr>"

definition performDeleteExpense_try :: "env \<Rightarrow> state \<Rightarrow> string \<Rightarrow> state \<Rightarrow> unit outcome \<times> state" where
  "performDeleteExpense_try env r i w =
     (case fetch env (delete_request i) (w\<lparr>saving := True\<rparr>) of
        (Rejected m, w1) \<Rightarrow> (Throw m, w1)
      | (Resolved res, w1) \<Rightarrow>
          if status res = 401 then (Return, unauthorized w1)
          else if \<not> ok res then
            (case read_json res w1 of
               (js, w2) \<Rightarrow>
                 (Throw (message_or js (''Delete failed ('' @ show_nat (status res) @ '')'')), w2))
          else
            (let w2 = w1\<lparr>confirmDialog := None\<rparr>;
                 w3 = fetchAll env r w2
             in (Normal (), showToast ''Expense deleted successfully.'' ToastSuccess w3)))"

definition performDeleteExpense :: "env \<Rightarrow> state \<Rightarrow> expense \<Rightarrow> state \<Rightarrow> state" where
  "performDeleteExpense env r x w =
     (let i = expense_id (Some x)
      in if \<not> truthy i then w
         else if \<not> truthy (API_BASE_URL env) then
           showToast ''API base URL is not configured.'' ToastError w
         else
           (case performDeleteExpense_try env r (or_empty i) w of
              (Throw m, w1) \<Rightarrow>
                (showToast (''Failed to delete expense: '' @ m) ToastError
                   (log [ConsoleError ''Delete expense failed:'' m] w1))\<lparr>saving := False\<rparr>
            | (_, w1) \<Rightarrow> w1\<lparr>saving := False\<rparr>))"

subsection \<open>\<^verbatim>\<open>handleDeleteExpense\<close> (lines 372 to 382)\<close>

definition handleDeleteExpense :: "expense option \<Rightarrow> state \<Rightarrow> state" where
  "handleDeleteExpense ex w =
     (case ex of None \<Rightarrow> w | Some x \<Rightarrow> w\<lparr>confirmDialog := Some (DeleteDialog x)\<rparr>)"

subsection \<open>The confirm button of the dialog (lines 863 to 874)\<close>

definition confirm_onClick :: "env \<Rightarrow> state \<Rightarrow> state \<Rightarrow> state" where
  "confirm_onClick env r w =
     (case confirmDialog r of
        None \<Rightarrow> w
      | Some (UpdateDialog payload) \<Rightarrow> performSaveExpense env r payload w
      | Some (DeleteDialog payload) \<Rightarrow> performDeleteExpense env r payload w)"

section \<open>The rendered controls\<close>

text \<open>
  One constructor for each control that has a handler: the logout button, the three
  period buttons, the add button, the edit and delete buttons of a table row, the four
  form inputs, the form's submit and cancel buttons, and the two buttons of the
  confirmation dialog.
\<close>

datatype ui_event =
    ClickLogout
  | ClickMonthly
  | ClickSixMonths
  | ClickYearly
  | ClickAdd
  | ClickEdit "expense option"
  | ClickDelete "expense option"
  | TypeTitle string
  | TypeDescription string
  | TypeAmount string
  | PickDate string
  | SubmitForm
  | ClickCancel
  | ConfirmCancel
  | ConfirmOk

text \<open>
  \<^verbatim>\<open>setSelectedPeriod(p)\<close> followed by the effect of lines 233 to 237, which calls
  \<^verbatim>\<open>fetchAll\<close> of the new render when \<^verbatim>\<open>apiPeriod\<close> has changed.
\<close>

definition select_period :: "env \<Rightarrow> string \<Rightarrow> state \<Rightarrow> state" where
  "select_period env p w =
     (let w1 = w\<lparr>selectedPeriod := p\<rparr>
      in if apiPeriod w1 = apiPeriod w then w1 else fetchAll env w1 w1)"

text \<open>
  A handler runs to completion on the state of the current render. The form exists while
  \<^verbatim>\<open>showExpenseModal\<close> holds, the dialog while \<^verbatim>\<open>confirmDialog\<close> is set, and the buttons
  marked \<^verbatim>\<open>disabled={saving}\<close> do nothing while \<^verbatim>\<open>saving\<close> holds.
\<close>

definition ui_step :: "env \<Rightarrow> ui_event \<Rightarrow> state \<Rightarrow> state" where
  "ui_step env ev w = (case ev of
      ClickLogout \<Rightarrow> handleLogout w
    | ClickMonthly \<Rightarrow> select_period env ''monthly'' w
    | ClickSixMonths \<Rightarrow> select_period env ''sixMonths'' w
    | ClickYearly \<Rightarrow> select_period env ''yearly'' w
    | ClickAdd \<Rightarrow> openCreateModal env w
    | ClickEdit ex \<Rightarrow> openEditModal env ex w
    | ClickDelete ex \<Rightarrow> handleDeleteExpense ex w
    | TypeTitle v \<Rightarrow>
        if showExpenseModal w then w\<lparr>expenseForm := (expenseForm w)\<lparr>f_title := v\<rparr>\<rparr> else w
    | TypeDescription v \<Rightarrow>
        if showExpenseModal w then w\<lparr>expenseForm := (expenseForm w)\<lparr>f_description := v\<rparr>\<rparr> else w
    | TypeAmount v \<Rightarrow>
        if showExpenseModal w then w\<lparr>expenseForm := (expenseForm w)\<lparr>f_amount := v\<rparr>\<rparr> else w
    | PickDate v \<Rightarrow>
        if showExpenseModal w then w\<lparr>expenseForm := (expenseForm w)\<lparr>f_expenseDate := v\<rparr>\<rparr> else w
    | SubmitForm \<Rightarrow> if showExpenseModal w \<and> \<not> saving w then handleSaveExpense env w w else w
    | ClickCancel \<Rightarrow> if showExpenseModal w \<and> \<not> saving w then closeModal w w else w
    | ConfirmCancel \<Rightarrow>
        if confirmDialog w \<noteq> None \<and> \<not> saving w then w\<lparr>confirmDialog := None\<rparr> else w
    | ConfirmOk \<Rightarrow> if \<not> saving w then confirm_onClick env w w else w)"

text \<open>The page after mounting: the effect runs \<^verbatim>\<open>fetchAll\<close> once.\<close>

definition mounted :: "env \<Rightarrow> state" where
  "mounted env = fetchAll env (initial env) (initial env)"

fun run :: "env \<Rightarrow> ui_event list \<Rightarrow> state \<Rightarrow> state" where
  "run env [] w = w"
| "run env (ev # evs) w = run env evs (ui_step env ev w)"

text \<open>The effects a handler added to the log of \<open>w\<close>, and the requests among them.\<close>

definition new_events :: "state \<Rightarrow> state \<Rightarrow> event list" where
  "new_events w w' = drop (length (trace w)) (trace w')"

fun requests_of :: "event list \<Rightarrow> request list" where
  "requests_of [] = []"
| "requests_of (Fetch q # es) = q # requests_of es"
| "requests_of (_ # es) = requests_of es"

section \<open>Vocabulary of the properties\<close>

subsection \<open>Numbers and dates\<close>

text \<open>A finite, strictly positive number.\<close>

definition positive_finite :: "jsnum \<Rightarrow> bool" where
  "positive_finite n = (case n of Fin q \<Rightarrow> 0 < q | _ \<Rightarrow> False)"


text \<open>
  The local time values that \<^verbatim>\<open>getPeriodDateRange\<close> aims at: 00:00:00.000 on the first
  day of the first month of the period, and 23:59:59.999 on the local day of \<open>now\<close>.
\<close>

definition first_month :: "time_zone \<Rightarrow> jsdate \<Rightarrow> string \<Rightarrow> int" where
  "first_month z now period =
     (if period = ''monthly'' then getMonth z now
      else if period = ''6months'' then getMonth z now - 5 else 0)"

definition period_start_local :: "time_zone \<Rightarrow> jsdate \<Rightarrow> string \<Rightarrow> int" where
  "period_start_local z now period =
     MakeDate (MakeDay (getFullYear z now) (first_month z now period) 1) (MakeTime 0 0 0 0)"


text \<open>
  The clocks of the zone show the local time \<open>lt\<close>: its time value reads back as \<open>lt\<close>.
  A local time that a change of the clocks skips is not shown; its time value reads back
  as a later local time. \<open>same_local_day\<close> asks only that it reads back on the same day.
\<close>

definition wall_clock :: "time_zone \<Rightarrow> int \<Rightarrow> bool" where
  "wall_clock z lt = (LocalTime z (UTC z lt) = lt)"


definition start_of_day :: "time_zone \<Rightarrow> jsdate \<Rightarrow> bool" where
  "start_of_day z d =
     (getHours z d = 0 \<and> getMinutes z d = 0 \<and> getSeconds z d = 0 \<and> getMilliseconds z d = 0)"

definition end_of_day :: "time_zone \<Rightarrow> jsdate \<Rightarrow> bool" where
  "end_of_day z d =
     (getHours z d = 23 \<and> getMinutes z d = 59 \<and> getSeconds z d = 59 \<and>
      getMilliseconds z d = 999)"

subsection \<open>Shapes of the effect log\<close>

text \<open>The two effects of a 401 branch.\<close>

definition session_expired :: "event list" where
  "session_expired = [Alert ''Unauthorized: Please login again.'', Redirect ''/admin/login'']"

text \<open>A stretch of the log with no 401 response and no redirect.\<close>

definition quiet :: "event list \<Rightarrow> bool" where
  "quiet evs = list_all (\<lambda>e. case e of Response n \<Rightarrow> n \<noteq> 401 | Redirect _ \<Rightarrow> False | _ \<Rightarrow> True) evs"

text \<open>An effect of loading data: any request among them is a GET.\<close>

definition load_event :: "event \<Rightarrow> bool" where
  "load_event e = (case e of Fetch q \<Rightarrow> rmethod q = GET | _ \<Rightarrow> True)"

text \<open>A stretch of the log that ends with a 401 response and the two effects of its branch.\<close>

abbreviation stopped :: "event list \<Rightarrow> bool" where
  "stopped evs \<equiv> \<exists>pre q. evs = pre @ Fetch q # Response 401 # session_expired \<and> quiet pre"

text \<open>The effects of a block that loads data, by the way the block ended.\<close>

definition shape :: "'a outcome \<Rightarrow> event list \<Rightarrow> bool" where
  "shape out evs = (list_all load_event evs \<and> (if out = Return then stopped evs else quiet evs))"

text \<open>The targets of the redirects in a stretch of the log.\<close>

fun redirects :: "event list \<Rightarrow> string list" where
  "redirects [] = []"
| "redirects (Redirect u # es) = u # redirects es"
| "redirects (_ # es) = redirects es"

subsection \<open>A paginating server\<close>

text \<open>
  A server holds the records in pages \<open>pgs\<close>: its response to the request for page
  \<open>k\<close> is successful, carries the records of page \<open>k\<close> (none beyond the last page)
  and reports \<open>length pgs\<close> pages.
\<close>

definition page_response :: "expense list list \<Rightarrow> nat \<Rightarrow> fetch_result \<Rightarrow> bool" where
  "page_response pgs k fr = (case fr of
      Rejected _ \<Rightarrow> False
    | Resolved res \<Rightarrow>
        ok res \<and>
        (case json_result res of
           Inl _ \<Rightarrow> False
         | Inr j \<Rightarrow>
             j_data j = Some (if k \<le> length pgs then pgs ! (k - 1) else []) \<and>
             ToNumber (j_pages j) = Fin (of_nat (length pgs))))"

text \<open>
  The server answers so from request number \<open>n\<close> on, for the query between \<open>s\<close> and
  \<open>e\<close> with page size 100, for every page from 1 to the last (page 1 when there is none).
\<close>

definition serves :: "env \<Rightarrow> nat \<Rightarrow> jsdate \<Rightarrow> jsdate \<Rightarrow> expense list list \<Rightarrow> bool" where
  "serves env n s e pgs =
     list_all (\<lambda>k. page_response pgs k (server env (n + k - 1) (expenses_request s e k 100)))
       [1..<Suc (max 1 (length pgs))]"

text \<open>The pages before the first empty one, and the requests it takes to see them.\<close>

definition nonempty_prefix :: "'a list list \<Rightarrow> 'a list list" where
  "nonempty_prefix xs = takeWhile (\<lambda>p. p \<noteq> []) xs"

definition requests_needed :: "'a list list \<Rightarrow> nat" where
  "requests_needed xs =
     (if length (nonempty_prefix xs) < length xs then Suc (length (nonempty_prefix xs))
      else length xs)"

subsection \<open>Pending actions\<close>

text \<open>The request that confirming a pending action sends: its payload decides all of it.\<close>

definition pending_request :: "confirm_dialog \<Rightarrow> request" where
  "pending_request d = (case d of
      UpdateDialog p \<Rightarrow> save_request p
    | DeleteDialog x \<Rightarrow> delete_request (or_empty (expense_id (Some x))))"

text \<open>
  The controls that stage a pending action: submitting the form stages an update with
  the edit flag set, the delete button of a row stages the delete of that row.
\<close>

definition stages :: "ui_event \<Rightarrow> confirm_dialog \<Rightarrow> bool" where
  "stages ev d = (case d of
      UpdateDialog p \<Rightarrow> ev = SubmitForm \<and> p_isEdit p
    | DeleteDialog x \<Rightarrow> ev = ClickDelete (Some x))"

text \<open>The payload that \<^verbatim>\<open>handleSaveExpense\<close> builds from the form of a new expense.\<close>

definition create_payload :: "state \<Rightarrow> save_payload" where
  "create_payload w =
     \<lparr>p_isEdit = False, p_id = expense_id (editingExpense w),
      p_title = trim (f_title (expenseForm w)),
      p_description = trim (f_description (expenseForm w)),
      p_amount = toNumber (Str (f_amount (expenseForm w))),
      p_expenseDate = f_expenseDate (expenseForm w)\<rparr>"

section \<open>Concrete states and environments\<close>

text \<open>A state in which a mutation is in flight and the form is open.\<close>

definition saving_state :: state where
  "saving_state =
     \<lparr>selectedPeriod = ''monthly'', loading = False, expenses = [], expensesDateRange = None,
      periodGroups = [], showExpenseModal = True, editingExpense = None,
      expenseForm = \<lparr>f_title = ''Rent'', f_description = [], f_amount = ''100'',
                     f_expenseDate = ''2024-03-01''\<rparr>,
      formError = ''x'', saving = True, toast = None, confirmDialog = None,
      nreq = 1, trace = []\<rparr>"

text \<open>A state after a successful load, with nothing open.\<close>

definition idle_state :: state where
  "idle_state =
     \<lparr>selectedPeriod = ''monthly'', loading = False, expenses = [], expensesDateRange = None,
      periodGroups = [], showExpenseModal = False, editingExpense = None,
      expenseForm = \<lparr>f_title = [], f_description = [], f_amount = [],
                     f_expenseDate = ''2024-03-15''\<rparr>,
      formError = [], saving = False, toast = None, confirmDialog = None,
      nreq = 0, trace = []\<rparr>"

text \<open>A clock that stands at 2024-03-15T10:30:00.000Z, and the time zone UTC.\<close>

definition clock0 :: "nat \<Rightarrow> jsdate" where
  "clock0 n = 1710498600000"

definition utc_zone :: time_zone where
  "utc_zone = \<lparr>tz_offset = (\<lambda>t. 0), tz_local_offset = (\<lambda>lt. 0)\<rparr>"

text \<open>An environment without a configured base URL.\<close>

definition env_unconfigured :: env where
  "env_unconfigured =
     \<lparr>API_BASE_URL = None, server = (\<lambda>n q. Rejected ''Failed to fetch''),
      clock = clock0, zone = utc_zone, Date_parse = (\<lambda>s. None), Number_toString = (\<lambda>n. [])\<rparr>"

text \<open>An environment whose server answers every request with status 401.\<close>

definition env_unauthorized :: env where
  "env_unauthorized =
     \<lparr>API_BASE_URL = Some ''https://api.example.test'',
      server = (\<lambda>n q. Resolved \<lparr>status = 401, text_body = Some ''Unauthorized'',
                                   json_result = Inl ''Unexpected token''\<rparr>),
      clock = clock0, zone = utc_zone, Date_parse = (\<lambda>s. None), Number_toString = (\<lambda>n. [])\<rparr>"

definition rent_payload :: save_payload where
  "rent_payload =
     \<lparr>p_isEdit = False, p_id = None, p_title = ''Rent'', p_description = [],
      p_amount = Fin 100, p_expenseDate = ''2024-03-01''\<rparr>"

definition rent_expense :: expense where
  "rent_expense =
     \<lparr>e_uid = Some ''65f0a1'', e_id = None, e_title = Some ''Rent'', e_description = None,
      e_amount = Num (Fin 100), e_expenseDate = Some ''2024-03-01T00:00:00.000Z'',
      e_date = None, e_createdAt = None\<rparr>"

text \<open>The open form with a title of blanks only.\<close>

definition blank_title_state :: state where
  "blank_title_state =
     idle_state\<lparr>showExpenseModal := True,
                expenseForm := \<lparr>f_title = ''   '', f_description = [], f_amount = ''100'',
                                f_expenseDate = ''2024-03-01''\<rparr>\<rparr>"

text \<open>The open form filled in for a new rent expense.\<close>

definition create_form_state :: state where
  "create_form_state =
     idle_state\<lparr>showExpenseModal := True,
                expenseForm := \<lparr>f_title = ''Rent'', f_description = [], f_amount = ''100'',
                                f_expenseDate = ''2024-03-01''\<rparr>\<rparr>"





text \<open>
  The time zone of Asuncion around 1 October 2023, when the clocks went from 00:00 to
  01:00 (from UTC-4 to UTC-3 at 04:00 UTC), and a clock reading of
  2023-10-15T12:00:00.000Z.
\<close>

definition asuncion_2023 :: time_zone where
  "asuncion_2023 =
     \<lparr>tz_offset = (\<lambda>t. if t < 1696132800000 then - 14400000 else - 10800000),
      tz_local_offset = (\<lambda>lt. if lt < 1696122000000 then - 14400000 else - 10800000)\<rparr>"

definition noon_15_october :: jsdate where
  "noon_15_october = 1697371200000"

text \<open>
  A server that holds the pages \<open>pgs\<close> and answers every other request with an
  empty success, and an environment around it.
\<close>

definition paging_server :: "expense list list \<Rightarrow> nat \<Rightarrow> request \<Rightarrow> fetch_result" where
  "paging_server pgs n q =
     Resolved \<lparr>status = 200, text_body = Some [],
       json_result = Inr
         (case endpoint q of
            ListEP s e k l \<Rightarrow>
              \<lparr>j_message = None, j_rangeStart = None, j_rangeEnd = None,
               j_data = Some (if k \<le> length pgs then pgs ! (k - 1) else []),
               j_pages = Num (Fin (of_nat (length pgs)))\<rparr>
          | _ \<Rightarrow>
              \<lparr>j_message = None, j_rangeStart = None, j_rangeEnd = None,
               j_data = Some [], j_pages = Undefined\<rparr>)\<rparr>"

definition env_paging :: "expense list list \<Rightarrow> env" where
  "env_paging pgs =
     \<lparr>API_BASE_URL = Some ''https://api.example.test'', server = paging_server pgs,
      clock = clock0, zone = utc_zone, Date_parse = (\<lambda>s. None), Number_toString = (\<lambda>n. [])\<rparr>"

definition pages51 :: "expense list list" where
  "pages51 = replicate 51 (replicate 100 rent_expense)"

definition pages2 :: "expense list list" where
  "pages2 = [[rent_expense, rent_expense], [rent_expense]]"

section \<open>Numeric parsing\<close>

text \<open>
  C9. \<^verbatim>\<open>toNumber\<close> maps the string \<^verbatim>\<open>"1,234"\<close> to 1234: the commas are removed before the
  conversion. It maps every non-numeric input to 0, where an input is non-numeric when
  \<^verbatim>\<open>Number\<close> turns it (for a string, after the commas are removed) into \<open>NaN\<close>.
\<close>

theorem toNumber_commas_and_non_numeric:
  "toNumber (Str ''1,234'') = Fin 1234 \<and>
   (\<forall>s. ToNumber (Str (filter (\<lambda>c. c \<noteq> CHR '','') s)) = NaN \<longrightarrow> toNumber (Str s) = Fin 0) \<and>
   (\<forall>v. (\<forall>s. v \<noteq> Str s) \<and> ToNumber v = NaN \<longrightarrow> toNumber v = Fin 0)"
proof (intro conjI allI impI)
  show "toNumber (Str ''1,234'') = Fin 1234"
    by (simp add: toNumber_def ToNumber_def StringToNumber_def trim_def is_ws_def
        radix_prefix_def unsigned_decimal_def is_digit_def digit_of_def exponent_part_def
        scale10_def radix_value_def round_double_def isFinite_def)
next
  fix s assume "ToNumber (Str (filter (\<lambda>c. c \<noteq> CHR '','') s)) = NaN"
  then show "toNumber (Str s) = Fin 0"
    by (simp add: toNumber_def isFinite_def)
next
  fix v assume "(\<forall>s. v \<noteq> Str s) \<and> ToNumber v = NaN"
  then show "toNumber v = Fin 0"
    by (cases v) (simp_all add: toNumber_def isFinite_def)
qed

lemma ToNumber_abc: "ToNumber (Str ''abc'') = NaN"
  by (simp add: ToNumber_def StringToNumber_def trim_def is_ws_def radix_prefix_def
      unsigned_decimal_def is_digit_def digit_of_def)

theorem toNumber_commas_and_non_numeric_witness:
  "ToNumber (Str (filter (\<lambda>c. c \<noteq> CHR '','') ''a,bc'')) = NaN \<and> toNumber (Str ''a,bc'') = Fin 0 \<and>
   (\<forall>s. Undefined \<noteq> Str s) \<and> ToNumber Undefined = NaN \<and> toNumber Undefined = Fin 0"
proof -
  have h1: "ToNumber (Str (filter (\<lambda>c. c \<noteq> CHR '','') ''a,bc'')) = NaN"
    using ToNumber_abc by simp
  have h2: "(\<forall>s. Undefined \<noteq> Str s) \<and> ToNumber Undefined = NaN"
    by (simp add: ToNumber_def)
  from toNumber_commas_and_non_numeric h1 h2 show ?thesis
    by blast
qed

section \<open>Closing the form\<close>

text \<open>
  C10. While \<^verbatim>\<open>saving\<close> is true in the render whose \<^verbatim>\<open>closeModal\<close> runs, closing the form
  does nothing: the whole state, and with it \<^verbatim>\<open>showExpenseModal\<close>, \<^verbatim>\<open>editingExpense\<close> and
  \<^verbatim>\<open>formError\<close>, is unchanged, and so is the state after a click on the form's cancel
  button.
\<close>

theorem closeModal_noop_while_saving:
  "saving r \<Longrightarrow>
     closeModal r w = w \<and>
     showExpenseModal (closeModal r w) = showExpenseModal w \<and>
     editingExpense (closeModal r w) = editingExpense w \<and>
     formError (closeModal r w) = formError w \<and>
     ui_step env ClickCancel r = r"
  by (simp add: closeModal_def ui_step_def)

theorem closeModal_noop_while_saving_witness:
  "saving saving_state \<and> closeModal saving_state saving_state = saving_state \<and>
   showExpenseModal (closeModal saving_state saving_state)"
  using closeModal_noop_while_saving [of saving_state saving_state]
  by (simp add: saving_state_def)

section \<open>Local validation of the form\<close>

lemma amount_check: "(\<not> isFinite a \<or> js_le a (Fin 0)) = (\<not> positive_finite a)"
  by (cases a) (auto simp: isFinite_def js_le_def positive_finite_def)

text \<open>
  The no-break space counts as white space: a title made of it is blank, and around an
  amount it is ignored.
\<close>

lemma no_break_space_is_stripped:
  "trim [CHR 0xA0, CHR 0x20, CHR 0x09] = [] \<and>
   toNumber (Str [CHR 0xA0, CHR ''5'', CHR 0xA0]) = Fin 5"
  by (simp add: toNumber_def ToNumber_def StringToNumber_def trim_def is_ws_def
      radix_prefix_def unsigned_decimal_def is_digit_def digit_of_def exponent_part_def
      scale10_def radix_value_def round_double_def isFinite_def)

text \<open>
  C7. When the trimmed title is empty, or the date is missing, or the parsed amount is not
  a finite strictly positive number, \<^verbatim>\<open>handleSaveExpense\<close> only sets the inline form
  error: the result is the current state with \<^verbatim>\<open>formError\<close> set to one of the three
  messages, so no request is sent and nothing is logged. The same holds for a click on
  the submit button.
\<close>

theorem invalid_form_rejected_locally:
  assumes "trim (f_title (expenseForm r)) = [] \<or> f_expenseDate (expenseForm r) = [] \<or>
           \<not> positive_finite (toNumber (Str (f_amount (expenseForm r))))"
  shows "(\<exists>msg \<in> {''Title is required.'', ''Expense date is required.'',
                   ''Amount must be a positive number.''}.
            handleSaveExpense env r w = w\<lparr>formError := msg\<rparr>) \<and>
         trace (handleSaveExpense env r w) = trace w \<and>
         nreq (handleSaveExpense env r w) = nreq w \<and>
         requests_of (new_events r (ui_step env SubmitForm r)) = []"
proof -
  let ?a = "toNumber (Str (f_amount (expenseForm r)))"
  from assms consider
      (title) "trim (f_title (expenseForm r)) = []"
    | (date) "trim (f_title (expenseForm r)) \<noteq> []" "f_expenseDate (expenseForm r) = []"
    | (amount) "trim (f_title (expenseForm r)) \<noteq> []" "f_expenseDate (expenseForm r) \<noteq> []"
        "\<not> isFinite ?a \<or> js_le ?a (Fin 0)"
    using amount_check [of ?a] by blast
  then have eq: "\<And>v. handleSaveExpense env r v = v\<lparr>formError := ''Title is required.''\<rparr> \<or>
      handleSaveExpense env r v = v\<lparr>formError := ''Expense date is required.''\<rparr> \<or>
      handleSaveExpense env r v = v\<lparr>formError := ''Amount must be a positive number.''\<rparr>"
    by cases (simp_all add: handleSaveExpense_def Let_def)
  from eq [of w] have 1: "\<exists>msg \<in> {''Title is required.'', ''Expense date is required.'',
                   ''Amount must be a positive number.''}.
           handleSaveExpense env r w = w\<lparr>formError := msg\<rparr>"
    by blast
  from eq [of w] have 2: "trace (handleSaveExpense env r w) = trace w"
    by auto
  from eq [of w] have 3: "nreq (handleSaveExpense env r w) = nreq w"
    by auto
  from eq [of r] have "trace (handleSaveExpense env r r) = trace r"
    by auto
  then have 4: "requests_of (new_events r (ui_step env SubmitForm r)) = []"
    by (simp add: ui_step_def new_events_def)
  from 1 2 3 4 show ?thesis by blast
qed

theorem invalid_form_rejected_locally_witness:
  "trim (f_title (expenseForm blank_title_state)) = [] \<and>
   trace (handleSaveExpense env_unauthorized blank_title_state blank_title_state) = [] \<and>
   nreq (handleSaveExpense env_unauthorized blank_title_state blank_title_state) = 0"
proof -
  have h: "trim (f_title (expenseForm blank_title_state)) = []"
    by (simp add: blank_title_state_def trim_def is_ws_def)
  have t: "trace blank_title_state = []" and n: "nreq blank_title_state = 0"
    by (simp_all add: blank_title_state_def idle_state_def)
  from invalid_form_rejected_locally [of blank_title_state env_unauthorized blank_title_state] h t n
  show ?thesis by simp
qed

section \<open>The effect log of the data loader\<close>

lemma quiet_append [simp]: "quiet (xs @ ys) = (quiet xs \<and> quiet ys)"
  by (simp add: quiet_def)

lemma quiet_simps [simp]:
  "quiet []"
  "quiet (Fetch q # es) = quiet es"
  "quiet (Response n # es) = (n \<noteq> 401 \<and> quiet es)"
  "quiet (ReadText # es) = quiet es"
  "quiet (ReadJson # es) = quiet es"
  "quiet (Alert a # es) = quiet es"
  "quiet (Redirect u # es) = False"
  "quiet (ConsoleWarn m # es) = quiet es"
  "quiet (ConsoleError c m # es) = quiet es"
  by (simp_all add: quiet_def)

lemma load_event_simps [simp]:
  "load_event (Fetch q) = (rmethod q = GET)"
  "load_event (Response n)"
  "load_event ReadText"
  "load_event ReadJson"
  "load_event (Alert a)"
  "load_event (Redirect u)"
  "load_event (ConsoleWarn m)"
  "load_event (ConsoleError c m)"
  by (simp_all add: load_event_def)

lemma extI:
  "w' = w\<lparr>nreq := n, trace := trace w @ evs\<rparr> \<Longrightarrow> P evs \<Longrightarrow>
   \<exists>evs. w' = w\<lparr>nreq := nreq w', trace := trace w @ evs\<rparr> \<and> P evs"
  by auto

lemma page_loop_stop:
  assumes "\<not> (js_le (Fin (of_nat page)) pages \<and> page \<le> 50)"
  shows "page_loop env s e all page pages w = (Normal all, w)"
  by (subst page_loop.simps) (simp only: assms if_False)

lemma page_loop_step:
  "js_le (Fin (of_nat page)) pages \<and> page \<le> 50 \<Longrightarrow>
   page_loop env s e all page pages w =
     (case server env (nreq w) (expenses_request s e page 100) of
        Rejected m \<Rightarrow>
          (Throw m, w\<lparr>nreq := Suc (nreq w), trace := trace w @ [Fetch (expenses_request s e page 100)]\<rparr>)
      | Resolved res \<Rightarrow>
          if status res = 401 then
            (Return, w\<lparr>nreq := Suc (nreq w),
               trace := trace w @ [Fetch (expenses_request s e page 100), Response 401] @ session_expired\<rparr>)
          else if \<not> ok res then
            (Throw (''Expenses request failed ('' @ show_nat (status res) @ ''). '' @ or_empty (text_body res)),
             w\<lparr>nreq := Suc (nreq w),
               trace := trace w @ [Fetch (expenses_request s e page 100), Response (status res), ReadText]\<rparr>)
          else
            (case json_result res of
               Inl m \<Rightarrow>
                 (Throw m, w\<lparr>nreq := Suc (nreq w),
                    trace := trace w @ [Fetch (expenses_request s e page 100), Response (status res), ReadJson]\<rparr>)
             | Inr j \<Rightarrow>
                 if data_of j = [] then
                   (Normal all, w\<lparr>nreq := Suc (nreq w),
                      trace := trace w @ [Fetch (expenses_request s e page 100), Response (status res), ReadJson]\<rparr>)
                 else page_loop env s e (all @ data_of j) (page + 1) (pages_of j)
                        (w\<lparr>nreq := Suc (nreq w),
                           trace := trace w @ [Fetch (expenses_request s e page 100), Response (status res), ReadJson]\<rparr>)))"
  by (subst page_loop.simps)
     (simp add: fetch_def read_text_def read_json_def unauthorized_def log_def session_expired_def
        split: fetch_result.splits sum.splits)

lemma shape_prepend:
  assumes "shape out evs" "list_all load_event xs" "quiet xs"
  shows "shape out (xs @ evs)"
proof (cases "out = Return")
  case True
  with assms(1) obtain pre q where
    "evs = pre @ Fetch q # Response 401 # session_expired" "quiet pre" "list_all load_event evs"
    unfolding shape_def by auto
  with assms(2,3) have "xs @ evs = (xs @ pre) @ Fetch q # Response 401 # session_expired"
    "quiet (xs @ pre)" "list_all load_event (xs @ evs)"
    by simp_all
  with True show ?thesis unfolding shape_def by metis
next
  case False
  with assms show ?thesis unfolding shape_def by simp
qed

lemma shape_stop: "rmethod q = GET \<Longrightarrow> shape Return (Fetch q # Response 401 # session_expired)"
proof -
  assume "rmethod q = GET"
  then have "list_all load_event (Fetch q # Response 401 # session_expired)"
    by (simp add: session_expired_def)
  moreover have "Fetch q # Response 401 # session_expired = [] @ Fetch q # Response 401 # session_expired"
    "quiet []" by simp_all
  ultimately show ?thesis unfolding shape_def by metis
qed

lemma page_loop_events:
  "page_loop env s e all page pages w = (out, w') \<Longrightarrow>
     \<exists>evs. w' = w\<lparr>nreq := nreq w', trace := trace w @ evs\<rparr> \<and> shape out evs"
proof (induction "51 - page" arbitrary: page all pages w out w')
  case 0
  then have "\<not> (js_le (Fin (of_nat page)) pages \<and> page \<le> 50)" by simp
  from page_loop_stop [OF this] "0.prems" have "out = Normal all" "w' = w" by simp_all
  then show ?case
    by (intro exI [of _ "[]"]) (simp add: shape_def)
next
  case (Suc n)
  let ?q = "expenses_request s e page 100"
  show ?case
  proof (cases "js_le (Fin (of_nat page)) pages \<and> page \<le> 50")
    case False
    from page_loop_stop [OF this] Suc.prems have "out = Normal all" "w' = w" by simp_all
    then show ?thesis
      by (intro exI [of _ "[]"]) (simp add: shape_def)
  next
    case True
    note step = page_loop_step [OF True, of env s e all w]
    have get: "rmethod ?q = GET" by (simp add: expenses_request_def)
    show ?thesis
    proof (cases "server env (nreq w) ?q")
      case (Rejected m)
      with step Suc.prems have "out = Throw m" "w' = w\<lparr>nreq := Suc (nreq w), trace := trace w @ [Fetch ?q]\<rparr>"
        by simp_all
      then show ?thesis using get
        by (intro exI [of _ "[Fetch ?q]"]) (simp add: shape_def)
    next
      case (Resolved res)
      show ?thesis
      proof (cases "status res = 401")
        case True
        with Resolved step Suc.prems have "out = Return"
          "w' = w\<lparr>nreq := Suc (nreq w), trace := trace w @ [Fetch ?q, Response 401] @ session_expired\<rparr>"
          by simp_all
        then show ?thesis using shape_stop [OF get]
          by (intro exI [of _ "[Fetch ?q, Response 401] @ session_expired"]) simp
      next
        case n401: False
        show ?thesis
        proof (cases "ok res")
          case False
          with n401 Resolved step Suc.prems have
            "out = Throw (''Expenses request failed ('' @ show_nat (status res) @ ''). '' @ or_empty (text_body res))"
            "w' = w\<lparr>nreq := Suc (nreq w), trace := trace w @ [Fetch ?q, Response (status res), ReadText]\<rparr>"
            by simp_all
          then show ?thesis using get n401
            by (intro exI [of _ "[Fetch ?q, Response (status res), ReadText]"]) (simp add: shape_def)
        next
          case okr: True
          let ?pre = "[Fetch ?q, Response (status res), ReadJson]"
          let ?w2 = "w\<lparr>nreq := Suc (nreq w), trace := trace w @ ?pre\<rparr>"
          have pre: "list_all load_event ?pre" "quiet ?pre" using get n401 by simp_all
          show ?thesis
          proof (cases "json_result res")
            case (Inl m)
            with okr n401 Resolved step Suc.prems have "out = Throw m" "w' = ?w2"
              by simp_all
            then show ?thesis using pre
              by (intro exI [of _ ?pre]) (simp add: shape_def)
          next
            case (Inr j)
            show ?thesis
            proof (cases "data_of j = []")
              case True
              with Inr okr n401 Resolved step Suc.prems have "out = Normal all" "w' = ?w2"
                by simp_all
              then show ?thesis using pre
                by (intro exI [of _ ?pre]) (simp add: shape_def)
            next
              case False
              with Inr okr n401 Resolved step Suc.prems
              have rec: "page_loop env s e (all @ data_of j) (page + 1) (pages_of j) ?w2 = (out, w')"
                by simp
              from Suc.hyps(2) have "n = 51 - (page + 1)" by simp
              from Suc.hyps(1) [OF this rec] obtain evs where
                evs: "w' = ?w2\<lparr>nreq := nreq w', trace := trace ?w2 @ evs\<rparr>" "shape out evs"
                by blast
              from evs(1) have "w' = w\<lparr>nreq := nreq w', trace := trace w @ (?pre @ evs)\<rparr>"
                by simp
              moreover from shape_prepend [OF evs(2) pre] have "shape out (?pre @ evs)" .
              ultimately show ?thesis by blast
            qed
          qed
        qed
      qed
    qed
  qed
qed

lemma fetchAll_try_step:
  "fetchAll_try env r w =
     (case server env (nreq w) (period_request (apiPeriod r)) of
        Rejected m \<Rightarrow>
          (Throw m, w\<lparr>loading := True, nreq := Suc (nreq w),
                      trace := trace w @ [Fetch (period_request (apiPeriod r))]\<rparr>)
      | Resolved res \<Rightarrow>
          if status res = 401 then
            (Return, w\<lparr>loading := True, nreq := Suc (nreq w),
               trace := trace w @ Fetch (period_request (apiPeriod r)) # Response 401 # session_expired\<rparr>)
          else if \<not> ok res then
            (Throw (''Period request failed ('' @ show_nat (status res) @ ''). '' @ or_empty (text_body res)),
             w\<lparr>loading := True, nreq := Suc (nreq w),
               trace := trace w @ [Fetch (period_request (apiPeriod r)), Response (status res), ReadText]\<rparr>)
          else
            (case json_result res of
               Inl m \<Rightarrow>
                 (Throw m, w\<lparr>loading := True, nreq := Suc (nreq w),
                    trace := trace w @ [Fetch (period_request (apiPeriod r)), Response (status res), ReadJson]\<rparr>)
             | Inr pj \<Rightarrow>
                 (case page_loop env
                         (startDate (resolve_range env (apiPeriod r) pj (clock env (Suc (nreq w)))))
                         (endDate (resolve_range env (apiPeriod r) pj (clock env (Suc (nreq w)))))
                         [] 1 (Fin 1)
                         (w\<lparr>loading := True, nreq := Suc (nreq w),
                            trace := trace w @ [Fetch (period_request (apiPeriod r)), Response (status res), ReadJson],
                            periodGroups := data_of pj\<rparr>) of
                    (Throw m, w4) \<Rightarrow> (Throw m, w4)
                  | (Return, w4) \<Rightarrow> (Return, w4)
                  | (Normal all, w4) \<Rightarrow>
                      (Normal (), w4\<lparr>expenses := all,
                         expensesDateRange := Some (resolve_range env (apiPeriod r) pj (clock env (Suc (nreq w)))),
                         loading := False\<rparr>))))"
  by (simp add: fetchAll_try_def fetch_def read_text_def read_json_def unauthorized_def log_def
      session_expired_def Let_def split: fetch_result.splits sum.splits prod.splits outcome.splits)

lemma period_request_GET [simp]: "rmethod (period_request p) = GET"
  by (simp add: period_request_def)

lemma shape_plain: "out \<noteq> Return \<Longrightarrow> shape out evs = (list_all load_event evs \<and> quiet evs)"
  by (simp add: shape_def)

lemma shape_outcome: "shape out evs \<Longrightarrow> (out = Return) = (out' = Return) \<Longrightarrow> shape out' evs"
  by (cases "out' = Return") (simp_all add: shape_def)

lemma page_loop_frame:
  assumes "page_loop env s e all page pages w = (out, w')"
  obtains evs n where "w' = w\<lparr>nreq := n, trace := trace w @ evs\<rparr>" "shape out evs"
  using page_loop_events [OF assms] by blast

lemma fetchAll_try_events:
  assumes run: "fetchAll_try env r w = (out, w')"
  shows "\<exists>evs ex dr pg n. w' = w\<lparr>loading := (out \<noteq> Normal ()), expenses := ex,
                     expensesDateRange := dr, periodGroups := pg,
                     nreq := n, trace := trace w @ evs\<rparr> \<and>
               shape out evs \<and>
               (out \<noteq> Normal () \<longrightarrow> ex = expenses w \<and> dr = expensesDateRange w)"
proof -
  let ?q = "period_request (apiPeriod r)"
  note step = fetchAll_try_step [of env r w]
  have early: ?thesis
    if "w' = w\<lparr>loading := True, nreq := Suc (nreq w), trace := trace w @ evs\<rparr>"
      "out \<noteq> Normal ()" "shape out evs" for evs
  proof -
    from that(1,2) have "w' = w\<lparr>loading := (out \<noteq> Normal ()), expenses := expenses w,
        expensesDateRange := expensesDateRange w, periodGroups := periodGroups w,
        nreq := Suc (nreq w), trace := trace w @ evs\<rparr>"
      by simp
    with that(3) show ?thesis by blast
  qed
  show ?thesis
  proof (cases "server env (nreq w) ?q")
    case (Rejected m)
    with step run have "out = Throw m"
      "w' = w\<lparr>loading := True, nreq := Suc (nreq w), trace := trace w @ [Fetch ?q]\<rparr>"
      by simp_all
    then show ?thesis
      by (intro early [of "[Fetch ?q]"]) (simp_all add: shape_def)
  next
    case (Resolved res)
    show ?thesis
    proof (cases "status res = 401")
      case True
      with Resolved step run have "out = Return"
        "w' = w\<lparr>loading := True, nreq := Suc (nreq w),
                trace := trace w @ Fetch ?q # Response 401 # session_expired\<rparr>"
        by simp_all
      then show ?thesis using shape_stop [of ?q]
        by (intro early [of "Fetch ?q # Response 401 # session_expired"]) simp_all
    next
      case n401: False
      show ?thesis
      proof (cases "ok res")
        case False
        with n401 Resolved step run have
          "out = Throw (''Period request failed ('' @ show_nat (status res) @ ''). '' @ or_empty (text_body res))"
          "w' = w\<lparr>loading := True, nreq := Suc (nreq w),
                  trace := trace w @ [Fetch ?q, Response (status res), ReadText]\<rparr>"
          by simp_all
        then show ?thesis using n401
          by (intro early [of "[Fetch ?q, Response (status res), ReadText]"]) (simp_all add: shape_def)
      next
        case okr: True
        let ?pre = "[Fetch ?q, Response (status res), ReadJson]"
        have pre: "list_all load_event ?pre" "quiet ?pre" using n401 by simp_all
        show ?thesis
        proof (cases "json_result res")
          case (Inl m)
          with okr n401 Resolved step run have "out = Throw m"
            "w' = w\<lparr>loading := True, nreq := Suc (nreq w), trace := trace w @ ?pre\<rparr>"
            by simp_all
          then show ?thesis using pre
            by (intro early [of ?pre]) (simp_all add: shape_def)
        next
          case (Inr pj)
          let ?range = "resolve_range env (apiPeriod r) pj (clock env (Suc (nreq w)))"
          let ?w3 = "w\<lparr>loading := True, nreq := Suc (nreq w), trace := trace w @ ?pre,
                        periodGroups := data_of pj\<rparr>"
          obtain lo w4 where loop:
            "page_loop env (startDate ?range) (endDate ?range) [] 1 (Fin 1) ?w3 = (lo, w4)"
            by (cases "page_loop env (startDate ?range) (endDate ?range) [] 1 (Fin 1) ?w3")
          from loop obtain evs n where
            evs: "w4 = ?w3\<lparr>nreq := n, trace := trace ?w3 @ evs\<rparr>" "shape lo evs"
            by (rule page_loop_frame)
          from Inr okr n401 Resolved step run loop have res:
            "(out, w') = (case lo of Throw m \<Rightarrow> (Throw m, w4) | Return \<Rightarrow> (Return, w4)
                | Normal all \<Rightarrow> (Normal (), w4\<lparr>expenses := all,
                     expensesDateRange := Some ?range, loading := False\<rparr>))"
            by simp
          have sh: "shape out (?pre @ evs)"
          proof (rule shape_prepend [OF _ pre])
            from res show "shape out evs"
              by (cases lo) (use evs(2) in \<open>auto elim: shape_outcome\<close>)
          qed
          have "\<exists>ex dr pg. w' = w\<lparr>loading := (out \<noteq> Normal ()), expenses := ex,
                     expensesDateRange := dr, periodGroups := pg,
                     nreq := n, trace := trace w @ (?pre @ evs)\<rparr> \<and>
               (out \<noteq> Normal () \<longrightarrow> ex = expenses w \<and> dr = expensesDateRange w)"
          proof (cases lo)
            case (Throw m)
            with res evs(1) have "out = Throw m"
              "w' = w\<lparr>loading := True, expenses := expenses w, expensesDateRange := expensesDateRange w,
                  periodGroups := data_of pj, nreq := n, trace := trace w @ (?pre @ evs)\<rparr>"
              by simp_all
            then show ?thesis by auto
          next
            case Return
            with res evs(1) have "out = Return"
              "w' = w\<lparr>loading := True, expenses := expenses w, expensesDateRange := expensesDateRange w,
                  periodGroups := data_of pj, nreq := n, trace := trace w @ (?pre @ evs)\<rparr>"
              by simp_all
            then show ?thesis by auto
          next
            case (Normal all)
            with res evs(1) have "out = Normal ()"
              "w' = w\<lparr>loading := False, expenses := all, expensesDateRange := Some ?range,
                  periodGroups := data_of pj, nreq := n, trace := trace w @ (?pre @ evs)\<rparr>"
              by simp_all
            then show ?thesis by auto
          qed
          with sh show ?thesis by blast
        qed
      qed
    qed
  qed
qed

lemma fetchAll_events:
  "\<exists>evs ld ex dr pg ts n.
     fetchAll env r w = w\<lparr>loading := ld, expenses := ex, expensesDateRange := dr,
                           periodGroups := pg, toast := ts, nreq := n, trace := trace w @ evs\<rparr> \<and>
     list_all load_event evs \<and>
     (stopped evs \<and> ld \<and> ex = expenses w \<and> dr = expensesDateRange w \<and> ts = toast w \<or>
      quiet evs \<and> \<not> ld)"
proof (cases "truthy (API_BASE_URL env)")
  case False
  let ?evs = "[ConsoleWarn ''API base URL is not set. Cannot fetch money manager data.'']"
  from False have "fetchAll env r w = w\<lparr>loading := False, expenses := expenses w,
      expensesDateRange := expensesDateRange w, periodGroups := periodGroups w, toast := toast w,
      nreq := nreq w, trace := trace w @ ?evs\<rparr>"
    by (simp add: fetchAll_def log_def)
  moreover have "list_all load_event ?evs" "quiet ?evs" by simp_all
  ultimately show ?thesis by blast
next
  case True
  obtain out w1 where run: "fetchAll_try env r w = (out, w1)"
    by (cases "fetchAll_try env r w")
  from fetchAll_try_events [OF run] obtain evs ex dr pg n where
    w1: "w1 = w\<lparr>loading := (out \<noteq> Normal ()), expenses := ex, expensesDateRange := dr,
                 periodGroups := pg, nreq := n, trace := trace w @ evs\<rparr>"
    and sh: "shape out evs"
    and keep: "out \<noteq> Normal () \<longrightarrow> ex = expenses w \<and> dr = expensesDateRange w"
    by blast
  show ?thesis
  proof (cases out)
    case (Throw m)
    let ?evs = "evs @ [ConsoleError ''Money manager load failed:'' m]"
    from True run Throw w1 have "fetchAll env r w = w\<lparr>loading := False, expenses := ex,
        expensesDateRange := dr, periodGroups := pg,
        toast := Some (ToastError, ''Failed to load money manager data: '' @ m),
        nreq := n, trace := trace w @ ?evs\<rparr>"
      by (simp add: fetchAll_def log_def showToast_def)
    moreover from sh Throw have "list_all load_event ?evs" "quiet ?evs"
      by (simp_all add: shape_def)
    ultimately show ?thesis by blast
  next
    case Return
    from True run Return w1 keep have "fetchAll env r w = w\<lparr>loading := True, expenses := expenses w,
        expensesDateRange := expensesDateRange w, periodGroups := pg, toast := toast w,
        nreq := n, trace := trace w @ evs\<rparr>"
      by (simp add: fetchAll_def)
    moreover from sh Return have "list_all load_event evs" "stopped evs"
      by (simp_all add: shape_def)
    ultimately show ?thesis by blast
  next
    case (Normal u)
    from True run Normal w1 have "fetchAll env r w = w\<lparr>loading := False, expenses := ex,
        expensesDateRange := dr, periodGroups := pg, toast := toast w,
        nreq := n, trace := trace w @ evs\<rparr>"
      by (simp add: fetchAll_def)
    moreover from sh Normal have "list_all load_event evs" "quiet evs"
      by (simp_all add: shape_def)
    ultimately show ?thesis by blast
  qed
qed

lemma new_eventsI: "trace w' = trace w @ evs \<Longrightarrow> new_events w w' = evs"
  by (simp add: new_events_def)

lemma stopped_prepend: "stopped evs \<Longrightarrow> quiet xs \<Longrightarrow> stopped (xs @ evs)"
proof -
  assume "stopped evs" "quiet xs"
  then obtain pre q where "evs = pre @ Fetch q # Response 401 # session_expired" "quiet pre"
    by blast
  with \<open>quiet xs\<close> have "xs @ evs = (xs @ pre) @ Fetch q # Response 401 # session_expired"
    "quiet (xs @ pre)" by simp_all
  then show ?thesis by blast
qed

lemma stopped_base: "stopped (Fetch q # Response 401 # session_expired)"
proof -
  have "Fetch q # Response 401 # session_expired = [] @ Fetch q # Response 401 # session_expired"
    "quiet []" by simp_all
  then show ?thesis by blast
qed

lemma quiet_no_401: "quiet evs \<Longrightarrow> Response 401 \<notin> set evs"
  by (induction evs) (auto simp: quiet_def)

lemma quiet_redirects: "quiet evs \<Longrightarrow> redirects evs = []"
  by (induction evs rule: redirects.induct) simp_all

lemma redirects_append: "redirects (xs @ ys) = redirects xs @ redirects ys"
  by (induction xs rule: redirects.induct) simp_all

lemma stopped_redirects: "stopped evs \<Longrightarrow> redirects evs = [''/admin/login'']"
  by (auto simp: redirects_append quiet_redirects session_expired_def)

lemma stopped_not_quiet: "stopped evs \<Longrightarrow> \<not> quiet evs"
  by auto

lemma fetchAll_cases:
  obtains evs where
    "trace (fetchAll env r w) = trace w @ evs"
    "list_all load_event evs"
    "stopped evs \<or> quiet evs"
    "stopped evs \<Longrightarrow> loading (fetchAll env r w) \<and> expenses (fetchAll env r w) = expenses w \<and>
       expensesDateRange (fetchAll env r w) = expensesDateRange w \<and>
       toast (fetchAll env r w) = toast w"
    "quiet evs \<Longrightarrow> \<not> loading (fetchAll env r w)"
    "saving (fetchAll env r w) = saving w"
    "confirmDialog (fetchAll env r w) = confirmDialog w"
    "showExpenseModal (fetchAll env r w) = showExpenseModal w"
    "editingExpense (fetchAll env r w) = editingExpense w"
    "expenseForm (fetchAll env r w) = expenseForm w"
    "formError (fetchAll env r w) = formError w"
    "selectedPeriod (fetchAll env r w) = selectedPeriod w"
proof -
  from fetchAll_events [of env r w] obtain evs ld ex dr pg ts n where
    eq: "fetchAll env r w = w\<lparr>loading := ld, expenses := ex, expensesDateRange := dr,
                           periodGroups := pg, toast := ts, nreq := n, trace := trace w @ evs\<rparr>"
    and le: "list_all load_event evs"
    and alt: "stopped evs \<and> ld \<and> ex = expenses w \<and> dr = expensesDateRange w \<and> ts = toast w \<or>
      quiet evs \<and> \<not> ld"
    by blast
  show thesis
  proof (rule that [of evs])
    show "trace (fetchAll env r w) = trace w @ evs" by (simp add: eq)
    show "list_all load_event evs" by (rule le)
    show "stopped evs \<or> quiet evs" using alt by blast
    show "loading (fetchAll env r w) \<and> expenses (fetchAll env r w) = expenses w \<and>
       expensesDateRange (fetchAll env r w) = expensesDateRange w \<and>
       toast (fetchAll env r w) = toast w" if "stopped evs"
      using alt stopped_not_quiet [OF that] by (simp add: eq)
    show "\<not> loading (fetchAll env r w)" if "quiet evs"
      using alt stopped_not_quiet that by (auto simp add: eq)
  qed (simp_all add: eq)
qed

lemma requests_of_append [simp]: "requests_of (xs @ ys) = requests_of xs @ requests_of ys"
  by (induction xs rule: requests_of.induct) simp_all

lemma page_loop_requests:
  "page_loop env s e all page pages w = (out, w') \<Longrightarrow>
     \<exists>evs n. trace w' = trace w @ evs \<and>
       requests_of evs = map (\<lambda>k. expenses_request s e k 100) [page..<page + n] \<and>
       nreq w' = nreq w + n \<and> (n = 0 \<or> page + n \<le> 51)"
proof (induction "51 - page" arbitrary: page all pages w out w')
  case 0
  then have "\<not> (js_le (Fin (of_nat page)) pages \<and> page \<le> 50)" by simp
  from page_loop_stop [OF this] "0.prems" have "w' = w" by simp
  then show ?case
    by (intro exI [of _ "[]"] exI [of _ 0]) simp
next
  case (Suc m)
  let ?q = "expenses_request s e page 100"
  show ?case
  proof (cases "js_le (Fin (of_nat page)) pages \<and> page \<le> 50")
    case False
    from page_loop_stop [OF this] Suc.prems have "w' = w" by simp
    then show ?thesis
      by (intro exI [of _ "[]"] exI [of _ 0]) simp
  next
    case True
    note step = page_loop_step [OF True, of env s e all w]
    have one: ?thesis if "trace w' = trace w @ Fetch ?q # rest" "requests_of rest = []"
      "nreq w' = Suc (nreq w)" for rest
      using that True by (intro exI [of _ "Fetch ?q # rest"] exI [of _ 1]) simp
    show ?thesis
    proof (cases "server env (nreq w) ?q")
      case (Rejected m)
      with step Suc.prems have "w' = w\<lparr>nreq := Suc (nreq w), trace := trace w @ [Fetch ?q]\<rparr>"
        by simp
      then show ?thesis by (intro one [of "[]"]) simp_all
    next
      case (Resolved res)
      show ?thesis
      proof (cases "status res = 401")
        case True
        with Resolved step Suc.prems have
          "w' = w\<lparr>nreq := Suc (nreq w), trace := trace w @ [Fetch ?q, Response 401] @ session_expired\<rparr>"
          by simp
        then show ?thesis
          by (intro one [of "Response 401 # session_expired"]) (simp_all add: session_expired_def)
      next
        case n401: False
        show ?thesis
        proof (cases "ok res")
          case False
          with n401 Resolved step Suc.prems have
            "w' = w\<lparr>nreq := Suc (nreq w), trace := trace w @ [Fetch ?q, Response (status res), ReadText]\<rparr>"
            by simp
          then show ?thesis
            by (intro one [of "[Response (status res), ReadText]"]) simp_all
        next
          case okr: True
          let ?pre = "[Fetch ?q, Response (status res), ReadJson]"
          let ?w2 = "w\<lparr>nreq := Suc (nreq w), trace := trace w @ ?pre\<rparr>"
          show ?thesis
          proof (cases "json_result res")
            case (Inl m)
            with okr n401 Resolved step Suc.prems have "w' = ?w2" by simp
            then show ?thesis
              by (intro one [of "[Response (status res), ReadJson]"]) simp_all
          next
            case (Inr j)
            show ?thesis
            proof (cases "data_of j = []")
              case True
              with Inr okr n401 Resolved step Suc.prems have "w' = ?w2" by simp
              then show ?thesis
                by (intro one [of "[Response (status res), ReadJson]"]) simp_all
            next
              case False
              with Inr okr n401 Resolved step Suc.prems
              have rec: "page_loop env s e (all @ data_of j) (page + 1) (pages_of j) ?w2 = (out, w')"
                by simp
              from Suc.hyps(2) have "m = 51 - (page + 1)" by simp
              from Suc.hyps(1) [OF this rec] obtain evs n where
                evs: "trace w' = trace ?w2 @ evs"
                  "requests_of evs = map (\<lambda>k. expenses_request s e k 100) [page + 1..<page + 1 + n]"
                  "nreq w' = nreq ?w2 + n" "n = 0 \<or> page + 1 + n \<le> 51"
                by blast
              have "[page..<page + Suc n] = page # [page + 1..<page + 1 + n]"
                by (simp add: upt_conv_Cons)
              with evs True have "trace w' = trace w @ (?pre @ evs)"
                "requests_of (?pre @ evs) = map (\<lambda>k. expenses_request s e k 100) [page..<page + Suc n]"
                "nreq w' = nreq w + Suc n" "Suc n = 0 \<or> page + Suc n \<le> 51"
                by auto
              then show ?thesis by blast
            qed
          qed
        qed
      qed
    qed
  qed
qed

lemma ok_not_401: "ok res \<Longrightarrow> status res \<noteq> 401"
  by (simp add: ok_def)



lemma load_requests_GET:
  "list_all load_event evs \<Longrightarrow> q \<in> set (requests_of evs) \<Longrightarrow> rmethod q = GET"
  by (induction evs rule: requests_of.induct) auto

lemma fetchAll_GET:
  obtains evs where "trace (fetchAll env r w) = trace w @ evs"
    "\<forall>q \<in> set (requests_of evs). rmethod q = GET"
proof -
  obtain evs where "trace (fetchAll env r w) = trace w @ evs" "list_all load_event evs"
    by (rule fetchAll_cases [of env r w])
  with load_requests_GET that show thesis by blast
qed

section \<open>The effect log of a save and of a delete\<close>

lemma performSaveExpense_step:
  "truthy (API_BASE_URL env) \<Longrightarrow>
   performSaveExpense env r p w =
     (case server env (nreq w) (save_request p) of
        Rejected m \<Rightarrow>
          w\<lparr>formError := nonempty_or m ''Failed to save expense.'', saving := False,
            toast := Some (ToastError, nonempty_or m ''Failed to save expense.''),
            nreq := Suc (nreq w),
            trace := trace w @ [Fetch (save_request p), ConsoleError ''Save expense failed:'' m]\<rparr>
      | Resolved res \<Rightarrow>
          if status res = 401 then
            w\<lparr>saving := False, nreq := Suc (nreq w),
              trace := trace w @ Fetch (save_request p) # Response 401 # session_expired\<rparr>
          else if \<not> ok res then
            w\<lparr>formError := nonempty_or (message_or (json_result res)
                              (''Request failed ('' @ show_nat (status res) @ '')''))
                             ''Failed to save expense.'',
              saving := False,
              toast := Some (ToastError, nonempty_or (message_or (json_result res)
                              (''Request failed ('' @ show_nat (status res) @ '')''))
                             ''Failed to save expense.''),
              nreq := Suc (nreq w),
              trace := trace w @ [Fetch (save_request p), Response (status res), ReadJson,
                ConsoleError ''Save expense failed:'' (message_or (json_result res)
                              (''Request failed ('' @ show_nat (status res) @ '')''))]\<rparr>
          else
            (showToast (if p_isEdit p then ''Expense updated successfully.''
                        else ''Expense created successfully.'') ToastSuccess
               (fetchAll env r (closeModal r
                  (w\<lparr>saving := True, nreq := Suc (nreq w),
                     trace := trace w @ [Fetch (save_request p), Response (status res)],
                     confirmDialog := None\<rparr>))))
              \<lparr>saving := False\<rparr>)"
  by (simp add: performSaveExpense_def performSaveExpense_try_def fetch_def read_json_def
      unauthorized_def log_def session_expired_def showToast_def Let_def
      split: fetch_result.splits)

lemma performDeleteExpense_step:
  "truthy (API_BASE_URL env) \<Longrightarrow> truthy (expense_id (Some x)) \<Longrightarrow>
   performDeleteExpense env r x w =
     (case server env (nreq w) (delete_request (or_empty (expense_id (Some x)))) of
        Rejected m \<Rightarrow>
          w\<lparr>saving := False,
            toast := Some (ToastError, ''Failed to delete expense: '' @ m),
            nreq := Suc (nreq w),
            trace := trace w @ [Fetch (delete_request (or_empty (expense_id (Some x)))),
                                ConsoleError ''Delete expense failed:'' m]\<rparr>
      | Resolved res \<Rightarrow>
          if status res = 401 then
            w\<lparr>saving := False, nreq := Suc (nreq w),
              trace := trace w @ Fetch (delete_request (or_empty (expense_id (Some x)))) #
                         Response 401 # session_expired\<rparr>
          else if \<not> ok res then
            w\<lparr>saving := False,
              toast := Some (ToastError, ''Failed to delete expense: '' @
                        message_or (json_result res) (''Delete failed ('' @ show_nat (status res) @ '')'')),
              nreq := Suc (nreq w),
              trace := trace w @ [Fetch (delete_request (or_empty (expense_id (Some x)))),
                Response (status res), ReadJson,
                ConsoleError ''Delete expense failed:''
                  (message_or (json_result res) (''Delete failed ('' @ show_nat (status res) @ '')''))]\<rparr>
          else
            (showToast ''Expense deleted successfully.'' ToastSuccess
               (fetchAll env r
                  (w\<lparr>saving := True, nreq := Suc (nreq w),
                     trace := trace w @ [Fetch (delete_request (or_empty (expense_id (Some x)))),
                                         Response (status res)],
                     confirmDialog := None\<rparr>)))
              \<lparr>saving := False\<rparr>)"
  by (simp add: performDeleteExpense_def performDeleteExpense_try_def fetch_def read_json_def
      unauthorized_def log_def session_expired_def showToast_def Let_def
      split: fetch_result.splits)

lemma performSaveExpense_events:
  assumes base: "truthy (API_BASE_URL env)"
  shows "\<exists>rest. trace (performSaveExpense env r p w) = trace w @ Fetch (save_request p) # rest \<and>
           list_all load_event rest \<and>
           (stopped (Fetch (save_request p) # rest) \<or> quiet (Fetch (save_request p) # rest))"
proof -
  let ?q = "save_request p"
  note step = performSaveExpense_step [OF base, of r p w]
  show ?thesis
  proof (cases "server env (nreq w) ?q")
    case (Rejected m)
    with step have "trace (performSaveExpense env r p w) =
        trace w @ Fetch ?q # [ConsoleError ''Save expense failed:'' m]"
      by simp
    then show ?thesis by (intro exI [of _ "[ConsoleError ''Save expense failed:'' m]"]) simp
  next
    case (Resolved res)
    show ?thesis
    proof (cases "status res = 401")
      case True
      with Resolved step have "trace (performSaveExpense env r p w) =
          trace w @ Fetch ?q # Response 401 # session_expired"
        by simp
      then show ?thesis using stopped_base [of ?q]
        by (intro exI [of _ "Response 401 # session_expired"]) (simp add: session_expired_def)
    next
      case n401: False
      show ?thesis
      proof (cases "ok res")
        case False
        let ?rest = "[Response (status res), ReadJson,
                ConsoleError ''Save expense failed:'' (message_or (json_result res)
                              (''Request failed ('' @ show_nat (status res) @ '')''))]"
        from False n401 Resolved step have "trace (performSaveExpense env r p w) =
          trace w @ Fetch ?q # ?rest"
          by simp
        then show ?thesis using n401 by (intro exI [of _ ?rest]) simp
      next
        case True
        let ?w3 = "closeModal r (w\<lparr>saving := True, nreq := Suc (nreq w),
                     trace := trace w @ [Fetch ?q, Response (status res)],
                     confirmDialog := None\<rparr>)"
        have t3: "trace ?w3 = trace w @ [Fetch ?q, Response (status res)]"
          by (simp add: closeModal_def)
        obtain evs where
          evs: "trace (fetchAll env r ?w3) = trace ?w3 @ evs" "list_all load_event evs"
            "stopped evs \<or> quiet evs"
          by (rule fetchAll_cases [of env r ?w3])
        from True n401 Resolved step have "trace (performSaveExpense env r p w) =
          trace (fetchAll env r ?w3)"
          by (simp add: showToast_def)
        with evs(1) t3 have tr: "trace (performSaveExpense env r p w) =
          trace w @ Fetch ?q # (Response (status res) # evs)"
          by simp
        have "quiet [Fetch ?q, Response (status res)]" using n401 by simp
        with evs(3) stopped_prepend [of evs "[Fetch ?q, Response (status res)]"]
        have "stopped (Fetch ?q # Response (status res) # evs) \<or>
              quiet (Fetch ?q # Response (status res) # evs)"
          using n401 by auto
        with tr evs(2) show ?thesis
          by (intro exI [of _ "Response (status res) # evs"]) simp
      qed
    qed
  qed
qed

lemma performDeleteExpense_events:
  assumes base: "truthy (API_BASE_URL env)" and ident: "truthy (expense_id (Some x))"
  shows "\<exists>rest. trace (performDeleteExpense env r x w) =
             trace w @ Fetch (delete_request (or_empty (expense_id (Some x)))) # rest \<and>
           list_all load_event rest \<and>
           (stopped (Fetch (delete_request (or_empty (expense_id (Some x)))) # rest) \<or>
            quiet (Fetch (delete_request (or_empty (expense_id (Some x)))) # rest))"
proof -
  let ?q = "delete_request (or_empty (expense_id (Some x)))"
  note step = performDeleteExpense_step [OF base ident, of r w]
  show ?thesis
  proof (cases "server env (nreq w) ?q")
    case (Rejected m)
    with step have "trace (performDeleteExpense env r x w) =
        trace w @ Fetch ?q # [ConsoleError ''Delete expense failed:'' m]"
      by simp
    then show ?thesis by (intro exI [of _ "[ConsoleError ''Delete expense failed:'' m]"]) simp
  next
    case (Resolved res)
    show ?thesis
    proof (cases "status res = 401")
      case True
      with Resolved step have "trace (performDeleteExpense env r x w) =
          trace w @ Fetch ?q # Response 401 # session_expired"
        by simp
      then show ?thesis using stopped_base [of ?q]
        by (intro exI [of _ "Response 401 # session_expired"]) (simp add: session_expired_def)
    next
      case n401: False
      show ?thesis
      proof (cases "ok res")
        case False
        let ?rest = "[Response (status res), ReadJson,
                ConsoleError ''Delete expense failed:''
                  (message_or (json_result res) (''Delete failed ('' @ show_nat (status res) @ '')''))]"
        from False n401 Resolved step have "trace (performDeleteExpense env r x w) =
          trace w @ Fetch ?q # ?rest"
          by simp
        then show ?thesis using n401 by (intro exI [of _ ?rest]) simp
      next
        case True
        let ?w3 = "w\<lparr>saving := True, nreq := Suc (nreq w),
                     trace := trace w @ [Fetch ?q, Response (status res)],
                     confirmDialog := None\<rparr>"
        have t3: "trace ?w3 = trace w @ [Fetch ?q, Response (status res)]"
          by simp
        obtain evs where
          evs: "trace (fetchAll env r ?w3) = trace ?w3 @ evs" "list_all load_event evs"
            "stopped evs \<or> quiet evs"
          by (rule fetchAll_cases [of env r ?w3])
        from True n401 Resolved step have "trace (performDeleteExpense env r x w) =
          trace (fetchAll env r ?w3)"
          by (simp add: showToast_def)
        with evs(1) t3 have tr: "trace (performDeleteExpense env r x w) =
          trace w @ Fetch ?q # (Response (status res) # evs)"
          by simp
        have "quiet [Fetch ?q, Response (status res)]" using n401 by simp
        with evs(3) stopped_prepend [of evs "[Fetch ?q, Response (status res)]"]
        have "stopped (Fetch ?q # Response (status res) # evs) \<or>
              quiet (Fetch ?q # Response (status res) # evs)"
          using n401 by auto
        with tr evs(2) show ?thesis
          by (intro exI [of _ "Response (status res) # evs"]) simp
      qed
    qed
  qed
qed

lemma performSaveExpense_alt:
  "\<exists>evs. trace (performSaveExpense env r p w) = trace w @ evs \<and> (stopped evs \<or> quiet evs)"
proof (cases "truthy (API_BASE_URL env)")
  case True
  from performSaveExpense_events [OF True, of r p w] show ?thesis by blast
next
  case False
  then have "trace (performSaveExpense env r p w) = trace w @ []"
    by (simp add: performSaveExpense_def)
  moreover have "quiet []" by simp
  ultimately show ?thesis by blast
qed

lemma performDeleteExpense_alt:
  "\<exists>evs. trace (performDeleteExpense env r x w) = trace w @ evs \<and> (stopped evs \<or> quiet evs)"
proof (cases "truthy (API_BASE_URL env) \<and> truthy (expense_id (Some x))")
  case True
  then have "truthy (API_BASE_URL env)" "truthy (expense_id (Some x))" by simp_all
  from performDeleteExpense_events [OF this, of r w] show ?thesis by blast
next
  case False
  then have "trace (performDeleteExpense env r x w) = trace w @ []"
    by (auto simp add: performDeleteExpense_def showToast_def Let_def)
  moreover have "quiet []" by simp
  ultimately show ?thesis by blast
qed

lemma performSaveExpense_requests:
  obtains evs where "trace (performSaveExpense env r p w) = trace w @ evs"
    "\<forall>q \<in> set (requests_of evs). q = save_request p \<or> rmethod q = GET"
proof (cases "truthy (API_BASE_URL env)")
  case True
  from performSaveExpense_events [OF True, of r p w] obtain rest where
    tr: "trace (performSaveExpense env r p w) = trace w @ Fetch (save_request p) # rest"
    and le: "list_all load_event rest"
    by blast
  from le load_requests_GET
  have "\<forall>q \<in> set (requests_of (Fetch (save_request p) # rest)). q = save_request p \<or> rmethod q = GET"
    by auto
  with tr show thesis by (rule that)
next
  case False
  then have "trace (performSaveExpense env r p w) = trace w @ []"
    by (simp add: performSaveExpense_def)
  then show thesis by (rule that) simp
qed

lemma performDeleteExpense_requests:
  obtains evs where "trace (performDeleteExpense env r x w) = trace w @ evs"
    "\<forall>q \<in> set (requests_of evs).
        q = delete_request (or_empty (expense_id (Some x))) \<or> rmethod q = GET"
proof (cases "truthy (API_BASE_URL env) \<and> truthy (expense_id (Some x))")
  case True
  then have "truthy (API_BASE_URL env)" "truthy (expense_id (Some x))" by simp_all
  from performDeleteExpense_events [OF this, of r w] obtain rest where
    tr: "trace (performDeleteExpense env r x w) =
       trace w @ Fetch (delete_request (or_empty (expense_id (Some x)))) # rest"
    and le: "list_all load_event rest"
    by blast
  from le load_requests_GET
  have "\<forall>q \<in> set (requests_of (Fetch (delete_request (or_empty (expense_id (Some x)))) # rest)).
      q = delete_request (or_empty (expense_id (Some x))) \<or> rmethod q = GET"
    by auto
  with tr show thesis by (rule that)
next
  case False
  then have "trace (performDeleteExpense env r x w) = trace w @ []"
    by (auto simp add: performDeleteExpense_def showToast_def Let_def)
  then show thesis by (rule that) simp
qed

lemma performSaveExpense_dialog:
  "confirmDialog (performSaveExpense env r p w) = confirmDialog w \<or>
   confirmDialog (performSaveExpense env r p w) = None"
proof (cases "truthy (API_BASE_URL env)")
  case False
  then show ?thesis by (simp add: performSaveExpense_def)
next
  case True
  have fa: "confirmDialog (fetchAll env r v) = confirmDialog v" for v
    by (rule fetchAll_cases [of env r v])
  show ?thesis
    by (simp add: performSaveExpense_step [OF True] fa showToast_def closeModal_def
        split: fetch_result.splits)
qed

lemma performDeleteExpense_dialog:
  "confirmDialog (performDeleteExpense env r x w) = confirmDialog w \<or>
   confirmDialog (performDeleteExpense env r x w) = None"
proof (cases "truthy (API_BASE_URL env) \<and> truthy (expense_id (Some x))")
  case False
  then show ?thesis by (auto simp add: performDeleteExpense_def showToast_def Let_def)
next
  case True
  then have t: "truthy (API_BASE_URL env)" "truthy (expense_id (Some x))" by simp_all
  have fa: "confirmDialog (fetchAll env r v) = confirmDialog v" for v
    by (rule fetchAll_cases [of env r v])
  show ?thesis
    by (simp add: performDeleteExpense_step [OF t] fa showToast_def split: fetch_result.splits)
qed

section \<open>Session expiry\<close>

lemma stopped_shape:
  assumes "stopped evs \<or> quiet evs" "Response 401 \<in> set evs"
  shows "(\<exists>pre q. evs = pre @ [Fetch q, Response 401, Alert ''Unauthorized: Please login again.'',
                                 Redirect ''/admin/login''] \<and> quiet pre) \<and>
         redirects evs = [''/admin/login'']"
proof -
  from assms quiet_no_401 have st: "stopped evs" by blast
  then obtain pre q where "evs = pre @ Fetch q # Response 401 # session_expired" "quiet pre"
    by blast
  then have "evs = pre @ [Fetch q, Response 401, Alert ''Unauthorized: Please login again.'',
                                 Redirect ''/admin/login'']" "quiet pre"
    by (simp_all add: session_expired_def)
  with stopped_redirects [OF st] show ?thesis by blast
qed

text \<open>
  C3. A response with status 401 to the period request, to an expenses page request, to a
  save request or to a delete request is followed by the alert and one redirect to
  \<^verbatim>\<open>/admin/login\<close> and by nothing else: the function returns with the state it had when
  the request was sent (apart from \<^verbatim>\<open>saving\<close>, reset by the \<^verbatim>\<open>finally\<close> block), so
  the body is not read, nothing from the response is stored and no error reaches a
  \<^verbatim>\<open>catch\<close> block. In the effects of a whole load, save or delete, a 401 response is
  therefore the last response, directly before the alert and the only redirect, and a
  load that met one leaves \<^verbatim>\<open>expenses\<close>, \<^verbatim>\<open>expensesDateRange\<close> and the notification as
  they were.
\<close>

theorem unauthorized_response_redirects_once:
  "(truthy (API_BASE_URL env) \<and>
    server env (nreq w) (period_request (apiPeriod r)) = Resolved res \<and> status res = 401 \<longrightarrow>
      fetchAll env r w =
        w\<lparr>loading := True, nreq := Suc (nreq w),
          trace := trace w @ [Fetch (period_request (apiPeriod r)), Response 401,
                              Alert ''Unauthorized: Please login again.'', Redirect ''/admin/login'']\<rparr>) \<and>
   (js_le (Fin (of_nat page)) pages \<and> page \<le> 50 \<and>
    server env (nreq w) (expenses_request s e page 100) = Resolved res \<and> status res = 401 \<longrightarrow>
      page_loop env s e all page pages w =
        (Return, w\<lparr>nreq := Suc (nreq w),
           trace := trace w @ [Fetch (expenses_request s e page 100), Response 401,
                               Alert ''Unauthorized: Please login again.'', Redirect ''/admin/login'']\<rparr>)) \<and>
   (truthy (API_BASE_URL env) \<and>
    server env (nreq w) (save_request p) = Resolved res \<and> status res = 401 \<longrightarrow>
      performSaveExpense env r p w =
        w\<lparr>saving := False, nreq := Suc (nreq w),
          trace := trace w @ [Fetch (save_request p), Response 401,
                              Alert ''Unauthorized: Please login again.'', Redirect ''/admin/login'']\<rparr>) \<and>
   (truthy (API_BASE_URL env) \<and> truthy (expense_id (Some x)) \<and>
    server env (nreq w) (delete_request (or_empty (expense_id (Some x)))) = Resolved res \<and>
    status res = 401 \<longrightarrow>
      performDeleteExpense env r x w =
        w\<lparr>saving := False, nreq := Suc (nreq w),
          trace := trace w @ [Fetch (delete_request (or_empty (expense_id (Some x)))), Response 401,
                              Alert ''Unauthorized: Please login again.'', Redirect ''/admin/login'']\<rparr>) \<and>
   (\<forall>w' \<in> {fetchAll env r w, performSaveExpense env r p w, performDeleteExpense env r x w}.
      Response 401 \<in> set (new_events w w') \<longrightarrow>
        (\<exists>pre q. new_events w w' =
             pre @ [Fetch q, Response 401, Alert ''Unauthorized: Please login again.'',
                    Redirect ''/admin/login''] \<and> quiet pre) \<and>
        redirects (new_events w w') = [''/admin/login'']) \<and>
   (Response 401 \<in> set (new_events w (fetchAll env r w)) \<longrightarrow>
      expenses (fetchAll env r w) = expenses w \<and>
      expensesDateRange (fetchAll env r w) = expensesDateRange w \<and>
      toast (fetchAll env r w) = toast w)"
proof -
  have c1: "truthy (API_BASE_URL env) \<and>
    server env (nreq w) (period_request (apiPeriod r)) = Resolved res \<and> status res = 401 \<longrightarrow>
      fetchAll env r w =
        w\<lparr>loading := True, nreq := Suc (nreq w),
          trace := trace w @ [Fetch (period_request (apiPeriod r)), Response 401,
                              Alert ''Unauthorized: Please login again.'', Redirect ''/admin/login'']\<rparr>"
    by (simp add: fetchAll_def fetchAll_try_step session_expired_def)
  have c2: "js_le (Fin (of_nat page)) pages \<and> page \<le> 50 \<and>
    server env (nreq w) (expenses_request s e page 100) = Resolved res \<and> status res = 401 \<longrightarrow>
      page_loop env s e all page pages w =
        (Return, w\<lparr>nreq := Suc (nreq w),
           trace := trace w @ [Fetch (expenses_request s e page 100), Response 401,
                               Alert ''Unauthorized: Please login again.'', Redirect ''/admin/login'']\<rparr>)"
  proof
    assume "js_le (Fin (of_nat page)) pages \<and> page \<le> 50 \<and>
      server env (nreq w) (expenses_request s e page 100) = Resolved res \<and> status res = 401"
    then have g: "js_le (Fin (of_nat page)) pages \<and> page \<le> 50"
      and r: "server env (nreq w) (expenses_request s e page 100) = Resolved res" "status res = 401"
      by simp_all
    from page_loop_step [OF g, of env s e all w] r
    show "page_loop env s e all page pages w =
        (Return, w\<lparr>nreq := Suc (nreq w),
           trace := trace w @ [Fetch (expenses_request s e page 100), Response 401,
                               Alert ''Unauthorized: Please login again.'', Redirect ''/admin/login'']\<rparr>)"
      by (simp add: session_expired_def)
  qed
  have c3: "truthy (API_BASE_URL env) \<and>
    server env (nreq w) (save_request p) = Resolved res \<and> status res = 401 \<longrightarrow>
      performSaveExpense env r p w =
        w\<lparr>saving := False, nreq := Suc (nreq w),
          trace := trace w @ [Fetch (save_request p), Response 401,
                              Alert ''Unauthorized: Please login again.'', Redirect ''/admin/login'']\<rparr>"
    by (simp add: performSaveExpense_step session_expired_def)
  have c4: "truthy (API_BASE_URL env) \<and> truthy (expense_id (Some x)) \<and>
    server env (nreq w) (delete_request (or_empty (expense_id (Some x)))) = Resolved res \<and>
    status res = 401 \<longrightarrow>
      performDeleteExpense env r x w =
        w\<lparr>saving := False, nreq := Suc (nreq w),
          trace := trace w @ [Fetch (delete_request (or_empty (expense_id (Some x)))), Response 401,
                              Alert ''Unauthorized: Please login again.'', Redirect ''/admin/login'']\<rparr>"
    by (simp add: performDeleteExpense_step session_expired_def)
  have c5: "\<forall>w' \<in> {fetchAll env r w, performSaveExpense env r p w, performDeleteExpense env r x w}.
      Response 401 \<in> set (new_events w w') \<longrightarrow>
        (\<exists>pre q. new_events w w' =
             pre @ [Fetch q, Response 401, Alert ''Unauthorized: Please login again.'',
                    Redirect ''/admin/login''] \<and> quiet pre) \<and>
        redirects (new_events w w') = [''/admin/login'']"
  proof (intro ballI impI)
    fix w'
    assume mem: "w' \<in> {fetchAll env r w, performSaveExpense env r p w, performDeleteExpense env r x w}"
      and hit: "Response 401 \<in> set (new_events w w')"
    have "\<exists>evs. trace w' = trace w @ evs \<and> (stopped evs \<or> quiet evs)"
    proof -
      obtain evs where "trace (fetchAll env r w) = trace w @ evs" "stopped evs \<or> quiet evs"
        by (rule fetchAll_cases [of env r w])
      then have "\<exists>evs. trace (fetchAll env r w) = trace w @ evs \<and> (stopped evs \<or> quiet evs)"
        by blast
      with mem performSaveExpense_alt [of env r p w] performDeleteExpense_alt [of env r x w]
      show ?thesis by auto
    qed
    then obtain evs where evs: "trace w' = trace w @ evs" "stopped evs \<or> quiet evs"
      by blast
    from evs(1) have ne: "new_events w w' = evs" by (rule new_eventsI)
    from stopped_shape [OF evs(2)] hit ne
    show "(\<exists>pre q. new_events w w' =
             pre @ [Fetch q, Response 401, Alert ''Unauthorized: Please login again.'',
                    Redirect ''/admin/login''] \<and> quiet pre) \<and>
        redirects (new_events w w') = [''/admin/login'']"
      by simp
  qed
  have c6: "Response 401 \<in> set (new_events w (fetchAll env r w)) \<longrightarrow>
      expenses (fetchAll env r w) = expenses w \<and>
      expensesDateRange (fetchAll env r w) = expensesDateRange w \<and>
      toast (fetchAll env r w) = toast w"
  proof
    assume hit: "Response 401 \<in> set (new_events w (fetchAll env r w))"
    obtain evs where evs: "trace (fetchAll env r w) = trace w @ evs" "stopped evs \<or> quiet evs"
      and keep: "stopped evs \<Longrightarrow> loading (fetchAll env r w) \<and> expenses (fetchAll env r w) = expenses w \<and>
         expensesDateRange (fetchAll env r w) = expensesDateRange w \<and>
         toast (fetchAll env r w) = toast w"
      by (rule fetchAll_cases [of env r w]) blast
    from evs(1) have "new_events w (fetchAll env r w) = evs" by (rule new_eventsI)
    with hit evs(2) quiet_no_401 have "stopped evs" by auto
    from keep [OF this]
    show "expenses (fetchAll env r w) = expenses w \<and>
        expensesDateRange (fetchAll env r w) = expensesDateRange w \<and>
        toast (fetchAll env r w) = toast w"
      by simp
  qed
  show ?thesis
    by (rule conjI [OF c1 conjI [OF c2 conjI [OF c3 conjI [OF c4 conjI [OF c5 c6]]]]])
qed

theorem unauthorized_response_redirects_once_witness:
  "truthy (API_BASE_URL env_unauthorized) \<and>
   fetchAll env_unauthorized idle_state idle_state =
     idle_state\<lparr>loading := True, nreq := 1,
       trace := [Fetch (period_request ''monthly''), Response 401,
                 Alert ''Unauthorized: Please login again.'', Redirect ''/admin/login'']\<rparr> \<and>
   performSaveExpense env_unauthorized idle_state rent_payload idle_state =
     idle_state\<lparr>saving := False, nreq := 1,
       trace := [Fetch (save_request rent_payload), Response 401,
                 Alert ''Unauthorized: Please login again.'', Redirect ''/admin/login'']\<rparr> \<and>
   performDeleteExpense env_unauthorized idle_state rent_expense idle_state =
     idle_state\<lparr>saving := False, nreq := 1,
       trace := [Fetch (delete_request ''65f0a1''), Response 401,
                 Alert ''Unauthorized: Please login again.'', Redirect ''/admin/login'']\<rparr>"
proof -
  let ?res = "\<lparr>status = 401, text_body = Some ''Unauthorized'', json_result = Inl ''Unexpected token''\<rparr>"
  have base: "truthy (API_BASE_URL env_unauthorized)"
    by (simp add: env_unauthorized_def truthy_def)
  have srv: "\<And>n q. server env_unauthorized n q = Resolved ?res"
    by (simp add: env_unauthorized_def)
  have st: "status ?res = 401" by simp
  have ident: "truthy (expense_id (Some rent_expense))"
    "or_empty (expense_id (Some rent_expense)) = ''65f0a1''"
    by (simp_all add: expense_id_def rent_expense_def js_or_def truthy_def or_empty_def)
  have idle: "nreq idle_state = 0" "trace idle_state = []" "apiPeriod idle_state = ''monthly''"
    by (simp_all add: idle_state_def apiPeriod_def)
  from unauthorized_response_redirects_once
    [of env_unauthorized idle_state idle_state ?res _ _ _ _ _ rent_payload rent_expense]
    base srv st ident idle
  show ?thesis by simp
qed

section \<open>The loading flag\<close>

text \<open>
  C2. The loading flag after \<^verbatim>\<open>fetchAll\<close> when the period request is answered with status
  401: the flag was false, line 148 sets it, and the \<^verbatim>\<open>return\<close> of line 162 leaves the
  function without clearing it.
\<close>

theorem fetchAll_unauthorized_keeps_loading:
  "loading idle_state = False \<and>
   fetchAll env_unauthorized idle_state idle_state =
     idle_state\<lparr>loading := True, nreq := 1,
       trace := [Fetch (period_request ''monthly''), Response 401,
                 Alert ''Unauthorized: Please login again.'', Redirect ''/admin/login'']\<rparr> \<and>
   loading (fetchAll env_unauthorized idle_state idle_state) = True"
  by (simp add: fetchAll_def fetchAll_try_step env_unauthorized_def idle_state_def truthy_def
      session_expired_def apiPeriod_def)

section \<open>A missing base URL\<close>

text \<open>
  C8 as stated fails for the save: without a base URL \<^verbatim>\<open>performSaveExpense\<close> sets the
  form error and writes nothing to the log.
\<close>

theorem save_without_base_url_logs_nothing:
  "API_BASE_URL env_unconfigured = None \<and>
   performSaveExpense env_unconfigured idle_state rent_payload idle_state =
     idle_state\<lparr>formError := ''API base URL is not configured.''\<rparr> \<and>
   trace (performSaveExpense env_unconfigured idle_state rent_payload idle_state) = []"
  by (simp add: performSaveExpense_def env_unconfigured_def truthy_def idle_state_def)

text \<open>
  C8, amended. Without a configured base URL no operation sends a request and none throws.
  \<^verbatim>\<open>fetchAll\<close> logs a console warning and clears the loading flag;
  \<^verbatim>\<open>performSaveExpense\<close> only sets the inline form error; \<^verbatim>\<open>performDeleteExpense\<close> only
  shows an error notification, and does nothing when the record has no identifier.
\<close>

theorem no_base_url_no_request:
  "\<not> truthy (API_BASE_URL env) \<Longrightarrow>
     fetchAll env r w =
       w\<lparr>loading := False,
         trace := trace w @ [ConsoleWarn ''API base URL is not set. Cannot fetch money manager data.'']\<rparr> \<and>
     performSaveExpense env r p w = w\<lparr>formError := ''API base URL is not configured.''\<rparr> \<and>
     performDeleteExpense env r x w =
       (if truthy (expense_id (Some x))
        then w\<lparr>toast := Some (ToastError, ''API base URL is not configured.'')\<rparr> else w) \<and>
     requests_of (new_events w (fetchAll env r w)) = [] \<and>
     requests_of (new_events w (performSaveExpense env r p w)) = [] \<and>
     requests_of (new_events w (performDeleteExpense env r x w)) = [] \<and>
     nreq (fetchAll env r w) = nreq w \<and>
     nreq (performSaveExpense env r p w) = nreq w \<and>
     nreq (performDeleteExpense env r x w) = nreq w"
  by (simp add: fetchAll_def performSaveExpense_def performDeleteExpense_def log_def
      showToast_def new_events_def Let_def)

theorem no_base_url_no_request_witness:
  "\<not> truthy (API_BASE_URL env_unconfigured) \<and>
   fetchAll env_unconfigured idle_state idle_state =
     idle_state\<lparr>loading := False,
       trace := [ConsoleWarn ''API base URL is not set. Cannot fetch money manager data.'']\<rparr> \<and>
   performDeleteExpense env_unconfigured idle_state rent_expense idle_state =
     idle_state\<lparr>toast := Some (ToastError, ''API base URL is not configured.'')\<rparr>"
proof -
  have h: "\<not> truthy (API_BASE_URL env_unconfigured)"
    by (simp add: env_unconfigured_def truthy_def)
  have ident: "truthy (expense_id (Some rent_expense))"
    by (simp add: expense_id_def rent_expense_def js_or_def truthy_def)
  have idle: "trace idle_state = []" by (simp add: idle_state_def)
  from no_base_url_no_request [OF h, of idle_state idle_state rent_payload rent_expense] h ident idle
  show ?thesis by simp
qed

section \<open>Calendar arithmetic\<close>

text \<open>
  The calendar functions agree with their definitions in the ECMAScript specification:
  a year has \<open>DaysInYear\<close> days, \<open>YearFromTime\<close> is the largest year that starts at or
  before the time value, \<open>MakeDay\<close> gives the day of the first of the month it is asked
  for, and the time fields of \<open>MakeDate\<close> and \<open>MakeTime\<close> read back.
\<close>

lemma div_step:
  fixes a n :: int
  assumes n: "0 < n"
  shows "(a + 1) div n = a div n + (if (a + 1) mod n = 0 then 1 else 0)"
proof -
  have r: "0 \<le> a mod n" "a mod n < n"
    using n by simp_all
  note a = mult_div_mod_eq [of n a]
  show ?thesis
  proof (cases "a mod n + 1 = n")
    case True
    with a have e: "a + 1 = n * (a div n + 1) + 0"
      unfolding distrib_left by linarith
    have "(a + 1) div n = a div n + 1"
      using n by (intro int_div_pos_eq [OF e]) simp_all
    moreover have "(a + 1) mod n = 0"
      using n by (intro int_mod_pos_eq [OF e]) simp_all
    ultimately show ?thesis by simp
  next
    case False
    with r have lt: "a mod n + 1 < n" by simp
    from a have e: "a + 1 = n * (a div n) + (a mod n + 1)"
      by linarith
    have "(a + 1) div n = a div n"
      using r lt by (intro int_div_pos_eq [OF e]) simp_all
    moreover have "(a + 1) mod n = a mod n + 1"
      using r lt by (intro int_mod_pos_eq [OF e]) simp_all
    ultimately show ?thesis using r by simp
  qed
qed

lemma DayFromYear_1970: "DayFromYear 1970 = 0"
  by (simp add: DayFromYear_def)

lemma DayFromYear_Suc: "DayFromYear (y + 1) = DayFromYear y + DaysInYear y"
proof -
  have m4: "(y - 1968) mod 4 = y mod 4"
    using mod_mult_self1 [of y "- 492" 4] by simp
  have m100: "(y - 1900) mod 100 = y mod 100"
    using mod_mult_self1 [of y "- 19" 100] by simp
  have m400: "(y - 1600) mod 400 = y mod 400"
    using mod_mult_self1 [of y "- 4" 400] by simp
  have d4: "(y + 1 - 1969) div 4 = (y - 1969) div 4 + (if y mod 4 = 0 then 1 else 0)"
    using div_step [of 4 "y - 1969"] m4 by simp
  have d100: "(y + 1 - 1901) div 100 = (y - 1901) div 100 + (if y mod 100 = 0 then 1 else 0)"
    using div_step [of 100 "y - 1901"] m100 by simp
  have d400: "(y + 1 - 1601) div 400 = (y - 1601) div 400 + (if y mod 400 = 0 then 1 else 0)"
    using div_step [of 400 "y - 1601"] m400 by simp
  have i1: "y mod 4 = 0" if "y mod 100 = 0"
    using that mod_mod_cancel [of 4 100 y] by simp
  have i2: "y mod 100 = 0" if "y mod 400 = 0"
    using that mod_mod_cancel [of 100 400 y] by simp
  show ?thesis
    unfolding DayFromYear_def DaysInYear_def d4 d100 d400
    using i1 i2 by auto
qed

lemma DaysInYear_cases: "DaysInYear y = 365 \<or> DaysInYear y = 366"
  by (simp add: DaysInYear_def)

lemma DayFromYear_less: "DayFromYear y < DayFromYear (y + 1)"
  using DaysInYear_cases [of y] by (auto simp add: DayFromYear_Suc)

lemma DayFromYear_mono: "y \<le> y' \<Longrightarrow> DayFromYear y \<le> DayFromYear y'"
proof (induction y' rule: int_ge_induct)
  case base
  show ?case by simp
next
  case (step i)
  with DayFromYear_less [of i] show ?case by simp
qed

lemma estimate_up:
  assumes "0 \<le> d"
  shows "d < DayFromYear (1970 + d div 365 + 1)"
proof -
  define q where "q = d div 365"
  define x where "x = (q + 2) div 4"
  define w where "w = (q + 70) div 100"
  define v where "v = (q + 370) div 400"
  from assms have q: "0 \<le> q"
    by (simp add: q_def pos_imp_zdiv_nonneg_iff)
  have d: "d < 365 * q + 365"
    using mult_div_mod_eq [of 365 d] pos_mod_bound [of 365 d] by (simp add: q_def)
  have x: "q + 2 < 4 * x + 4"
    using mult_div_mod_eq [of 4 "q + 2"] pos_mod_bound [of 4 "q + 2"] by (simp add: x_def)
  have w: "100 * w \<le> q + 70"
    using mult_div_mod_eq [of 100 "q + 70"] pos_mod_sign [of 100 "q + 70"] by (simp add: w_def)
  from q have v: "0 \<le> v" and x0: "0 \<le> x"
    by (simp_all add: v_def x_def pos_imp_zdiv_nonneg_iff)
  have e: "DayFromYear (1970 + q + 1) = 365 * (q + 1) + x - w + v"
    by (simp add: DayFromYear_def x_def w_def v_def algebra_simps)
  from x w x0 have "w \<le> x"
    by linarith
  with v d have "d < 365 * (q + 1) + x - w + v"
    by simp
  then have "d < DayFromYear (1970 + q + 1)"
    by (simp only: e)
  then show ?thesis
    by (simp only: q_def)
qed

lemma estimate_down:
  assumes "d < 0"
  shows "DayFromYear (1970 + d div 365) \<le> d"
proof -
  define q where "q = d div 365"
  define x where "x = (q + 1) div 4"
  define w where "w = (q + 69) div 100"
  define v where "v = (q + 369) div 400"
  from assms have q: "q \<le> - 1"
    using mult_div_mod_eq [of 365 d] pos_mod_sign [of 365 d] by (simp add: q_def)
  have d: "365 * q \<le> d"
    using mult_div_mod_eq [of 365 d] pos_mod_sign [of 365 d] by (simp add: q_def)
  have x: "4 * x \<le> q + 1"
    using mult_div_mod_eq [of 4 "q + 1"] pos_mod_sign [of 4 "q + 1"] by (simp add: x_def)
  have w: "q + 69 < 100 * w + 100"
    using mult_div_mod_eq [of 100 "q + 69"] pos_mod_bound [of 100 "q + 69"] by (simp add: w_def)
  have v: "400 * v \<le> q + 369"
    using mult_div_mod_eq [of 400 "q + 369"] pos_mod_sign [of 400 "q + 369"] by (simp add: v_def)
  have e: "DayFromYear (1970 + q) = 365 * q + x - w + v"
    by (simp add: DayFromYear_def x_def w_def v_def algebra_simps)
  from q v have v0: "v \<le> 0"
    by linarith
  from x w q have "x \<le> w"
    by linarith
  with v0 d have "365 * q + x - w + v \<le> d"
    by simp
  then have "DayFromYear (1970 + q) \<le> d"
    by (simp only: e)
  then show ?thesis
    by (simp only: q_def)
qed

lemma year_down_bounds:
  "1970 \<le> y \<Longrightarrow> 0 \<le> d \<Longrightarrow> d < DayFromYear (y + 1) \<Longrightarrow>
     1970 \<le> year_down d y \<and> DayFromYear (year_down d y) \<le> d \<and>
     d < DayFromYear (year_down d y + 1)"
proof (induction d y rule: year_down.induct)
  case (1 d y)
  show ?case
  proof (cases "1970 < y \<and> d < DayFromYear y")
    case True
    with 1 show ?thesis
      by (subst (1 2 3) year_down.simps) simp
  next
    case False
    with 1 show ?thesis
      by (subst (1 2 3) year_down.simps) (auto simp add: DayFromYear_1970)
  qed
qed

lemma year_up_bounds:
  "y \<le> 1969 \<Longrightarrow> d < 0 \<Longrightarrow> DayFromYear y \<le> d \<Longrightarrow>
     DayFromYear (year_up d y) \<le> d \<and> d < DayFromYear (year_up d y + 1)"
proof (induction d y rule: year_up.induct)
  case (1 d y)
  show ?case
  proof (cases "y < 1969 \<and> DayFromYear (y + 1) \<le> d")
    case True
    with 1 show ?thesis
      by (subst (1 2) year_up.simps) simp
  next
    case False
    with 1 show ?thesis
      by (subst (1 2) year_up.simps) (auto simp add: DayFromYear_1970)
  qed
qed

lemma YearFromDay_bounds:
  "DayFromYear (YearFromDay d) \<le> d \<and> d < DayFromYear (YearFromDay d + 1)"
proof (cases "0 \<le> d")
  case True
  then have "1970 \<le> 1970 + d div 365"
    by (simp add: pos_imp_zdiv_nonneg_iff)
  from year_down_bounds [OF this True estimate_up [OF True]] True show ?thesis
    by (simp add: YearFromDay_def)
next
  case False
  then have neg: "d < 0" by simp
  then have "1970 + d div 365 \<le> 1969"
    using mult_div_mod_eq [of 365 d] pos_mod_sign [of 365 d] by simp
  from year_up_bounds [OF this neg estimate_down [OF neg]] False show ?thesis
    by (simp add: YearFromDay_def)
qed


text \<open>
  \<open>YearFromTime\<close> is the largest year \<open>y\<close> with \<open>TimeFromYear y \<le> t\<close>, as ECMAScript
  defines it.
\<close>

lemma YearFromTime_largest:
  "(msPerDay * DayFromYear y \<le> t) = (y \<le> YearFromTime t)"
proof -
  have fl: "(msPerDay * DayFromYear y \<le> t) = (DayFromYear y \<le> Day t)"
    using zdiv_mono1 [of "86400000 * DayFromYear y" t 86400000]
      mult_div_mod_eq [of 86400000 t] pos_mod_sign [of 86400000 t]
    by (auto simp add: msPerDay_def Day_def)
  note b = YearFromDay_bounds [of "Day t"]
  have "(DayFromYear y \<le> Day t) = (y \<le> YearFromDay (Day t))"
  proof
    assume le: "DayFromYear y \<le> Day t"
    show "y \<le> YearFromDay (Day t)"
    proof (rule ccontr)
      assume "\<not> y \<le> YearFromDay (Day t)"
      then have "YearFromDay (Day t) + 1 \<le> y" by simp
      from DayFromYear_mono [OF this] b le show False by simp
    qed
  next
    assume "y \<le> YearFromDay (Day t)"
    from DayFromYear_mono [OF this] b show "DayFromYear y \<le> Day t" by simp
  qed
  with fl show ?thesis
    by (simp add: YearFromTime_def)
qed











subsection \<open>The fallback range\<close>






section \<open>The date range of the expenses query\<close>


text \<open>
  The fallback range itself misses the day boundary where the clocks skip it. In Asuncion
  the local midnight of 1 October 2023 was skipped, and the start of the monthly range
  computed there on 15 October is 2023-10-01T04:00:00.000Z, which reads 01:00 local time.
\<close>

lemma skipped_midnight_reads_one_o_clock:
  "\<not> wall_clock asuncion_2023 (period_start_local asuncion_2023 noon_15_october ''monthly'') \<and>
   getPeriodDateRange asuncion_2023 noon_15_october ''monthly'' =
     \<lparr>startDate = 1696132800000, endDate = 1697425199999\<rparr> \<and>
   getHours asuncion_2023 1696132800000 = 1 \<and>
   \<not> start_of_day asuncion_2023 1696132800000 \<and>
   end_of_day asuncion_2023 1697425199999"
proof -
  have nl: "LocalTime asuncion_2023 noon_15_october = 1697360400000"
    by (simp add: LocalTime_def asuncion_2023_def noon_15_october_def)
  have y: "YearFromTime 1697360400000 = 2023"
    by (simp add: YearFromTime_def YearFromDay_def Day_def msPerDay_def year_down.simps
        DayFromYear_def)
  have m: "MonthFromTime 1697360400000 = 9"
    by (simp add: MonthFromTime_def month_of_day_def days_before_month_def InLeapYear_def
        DayWithinYear_def y DaysInYear_def Day_def msPerDay_def DayFromYear_def)
  have sl: "period_start_local asuncion_2023 noon_15_october ''monthly'' = 1696118400000"
    by (simp add: period_start_local_def first_month_def getFullYear_def getMonth_def nl y m
        MakeDate_def MakeDay_def MakeTime_def DayFromYear_def DaysInYear_def
        days_before_month_def msPerDay_def)
  have w: "\<not> wall_clock asuncion_2023 1696118400000"
    by (simp add: wall_clock_def LocalTime_def UTC_def asuncion_2023_def)
  have d1: "Date_first asuncion_2023 2023 9 = 1696132800000"
    by (simp add: Date_first_def MakeDate_def MakeDay_def MakeTime_def DayFromYear_def
        DaysInYear_def days_before_month_def msPerDay_def UTC_def asuncion_2023_def)
  have s1: "setHours asuncion_2023 0 0 0 0 1696132800000 = 1696132800000"
    by (simp add: setHours_def MakeDate_def MakeTime_def msPerDay_def UTC_def LocalTime_def
        Day_def asuncion_2023_def)
  have s2: "setHours asuncion_2023 23 59 59 999 noon_15_october = 1697425199999"
    by (simp add: setHours_def MakeDate_def MakeTime_def msPerDay_def UTC_def LocalTime_def
        Day_def asuncion_2023_def noon_15_october_def)
  have r: "getPeriodDateRange asuncion_2023 noon_15_october ''monthly'' =
     \<lparr>startDate = 1696132800000, endDate = 1697425199999\<rparr>"
    by (simp add: getPeriodDateRange_def Let_def getFullYear_def getMonth_def nl y m d1 s1 s2)
  have g: "getHours asuncion_2023 1696132800000 = 1"
    by (simp add: getHours_def HourFromTime_def LocalTime_def asuncion_2023_def)
  have e: "end_of_day asuncion_2023 1697425199999"
    by (simp add: end_of_day_def getHours_def getMinutes_def getSeconds_def getMilliseconds_def
        HourFromTime_def MinFromTime_def SecFromTime_def msFromTime_def LocalTime_def
        asuncion_2023_def)
  from sl w r g e show ?thesis
    by (simp add: start_of_day_def)
qed



section \<open>Pagination\<close>

lemma servesD:
  assumes "serves env n s e pgs" "1 \<le> k" "k \<le> max 1 (length pgs)"
  obtains res j where
    "server env (n + k - 1) (expenses_request s e k 100) = Resolved res" "ok res"
    "json_result res = Inr j"
    "j_data j = Some (if k \<le> length pgs then pgs ! (k - 1) else [])"
    "ToNumber (j_pages j) = Fin (of_nat (length pgs))"
proof -
  from assms(2,3) have "k \<in> set [1..<Suc (max 1 (length pgs))]"
    by auto
  with assms(1) have "page_response pgs k (server env (n + k - 1) (expenses_request s e k 100))"
    unfolding serves_def list_all_iff by blast
  then show thesis
    by (auto simp: page_response_def split: fetch_result.splits sum.splits intro: that)
qed

lemma js_le_nat: "js_le (Fin (of_nat a)) (Fin (of_nat b)) = (a \<le> b)"
  by (simp add: js_le_def)

lemma requests_needed_Nil [simp]: "requests_needed [] = 0"
  by (simp add: requests_needed_def nonempty_prefix_def)

lemma requests_needed_Cons:
  "requests_needed (p # ps) = (if p = [] then 1 else Suc (requests_needed ps))"
  by (simp add: requests_needed_def nonempty_prefix_def)

lemma nonempty_prefix_Cons:
  "nonempty_prefix (p # ps) = (if p = [] then [] else p # nonempty_prefix ps)"
  by (simp add: nonempty_prefix_def)

lemma page_loop_served:
  assumes "serves env n s e pgs"
  shows "1 \<le> k \<Longrightarrow> nreq w = n + k - 1 \<Longrightarrow>
     js_le (Fin (of_nat k)) pages = (k \<le> length pgs) \<Longrightarrow>
     \<exists>w'. page_loop env s e all k pages w =
             (Normal (all @ concat (nonempty_prefix (drop (k - 1) (take 50 pgs)))), w') \<and>
           nreq w' = nreq w + requests_needed (drop (k - 1) (take 50 pgs))"
proof (induction "51 - k" arbitrary: k all pages w)
  case 0
  then have stop: "\<not> (js_le (Fin (of_nat k)) pages \<and> k \<le> 50)" by simp
  from 0 have "drop (k - 1) (take 50 pgs) = []" by simp
  with page_loop_stop [OF stop, of env s e all w] show ?case
    by (simp add: nonempty_prefix_def)
next
  case (Suc m)
  show ?case
  proof (cases "k \<le> length pgs \<and> k \<le> 50")
    case False
    with Suc.prems have stop: "\<not> (js_le (Fin (of_nat k)) pages \<and> k \<le> 50)" by simp
    from False Suc.prems have "drop (k - 1) (take 50 pgs) = []" by auto
    with page_loop_stop [OF stop, of env s e all w] show ?thesis
      by (simp add: nonempty_prefix_def)
  next
    case True
    with Suc.prems have guard: "js_le (Fin (of_nat k)) pages \<and> k \<le> 50" by simp
    from True Suc.prems have "k \<le> max 1 (length pgs)" by simp
    from servesD [OF assms Suc.prems(1) this] obtain res j where
      srv: "server env (n + k - 1) (expenses_request s e k 100) = Resolved res" "ok res"
        "json_result res = Inr j"
        "j_data j = Some (if k \<le> length pgs then pgs ! (k - 1) else [])"
        "ToNumber (j_pages j) = Fin (of_nat (length pgs))"
      by blast
    from srv(4) True have data: "data_of j = pgs ! (k - 1)"
      by (simp add: data_of_def)
    from True Suc.prems(1) have len: "k - 1 < length (take 50 pgs)" by (cases k) auto
    from True Suc.prems(1) have "take 50 pgs ! (k - 1) = pgs ! (k - 1)" by (cases k) auto
    with Cons_nth_drop_Suc [OF len] Suc.prems(1)
    have rem: "drop (k - 1) (take 50 pgs) = pgs ! (k - 1) # drop k (take 50 pgs)"
      by (cases k) simp_all
    let ?w2 = "w\<lparr>nreq := Suc (nreq w),
                 trace := trace w @ [Fetch (expenses_request s e k 100), Response (status res), ReadJson]\<rparr>"
    from True Suc.prems(1) srv(5) have pg: "pages_of j = Fin (of_nat (length pgs))"
      by (auto simp add: pages_of_def Let_def)
    from srv(1) Suc.prems(2) have s1: "server env (nreq w) (expenses_request s e k 100) = Resolved res"
      by simp
    have step: "page_loop env s e all k pages w =
        (if data_of j = [] then (Normal all, ?w2)
         else page_loop env s e (all @ data_of j) (k + 1) (pages_of j) ?w2)"
      by (simp add: page_loop_step [OF guard, of env s e all w] s1 srv(2,3) ok_not_401 [OF srv(2)])
    show ?thesis
    proof (cases "pgs ! (k - 1) = []")
      case True
      with step data
      have "page_loop env s e all k pages w = (Normal all, ?w2)" by simp
      with True rem show ?thesis
        by (simp add: nonempty_prefix_Cons requests_needed_Cons)
    next
      case False
      with step data
      have eq: "page_loop env s e all k pages w =
          page_loop env s e (all @ pgs ! (k - 1)) (k + 1) (pages_of j) ?w2"
        by simp
      from Suc.hyps(2) have m: "m = 51 - (k + 1)" by simp
      have "\<exists>w'. page_loop env s e (all @ pgs ! (k - 1)) (k + 1) (pages_of j) ?w2 =
             (Normal ((all @ pgs ! (k - 1)) @
                concat (nonempty_prefix (drop (k + 1 - 1) (take 50 pgs)))), w') \<and>
           nreq w' = nreq ?w2 + requests_needed (drop (k + 1 - 1) (take 50 pgs))"
      proof (rule Suc.hyps(1) [OF m])
        show "1 \<le> k + 1" by simp
        show "nreq ?w2 = n + (k + 1) - 1" using Suc.prems(1,2) by simp
        show "js_le (Fin (of_nat (k + 1))) (pages_of j) = (k + 1 \<le> length pgs)"
          by (simp only: pg js_le_nat)
      qed
      with eq False rem show ?thesis
        by (simp add: nonempty_prefix_Cons requests_needed_Cons)
    qed
  qed
qed

lemma fetchAll_served:
  assumes base: "truthy (API_BASE_URL env)"
    and srv: "server env (nreq w) (period_request (apiPeriod r)) = Resolved res"
    and okr: "ok res" and js: "json_result res = Inr pj"
    and sv: "serves env (Suc (nreq w))
               (startDate (resolve_range env (apiPeriod r) pj (clock env (Suc (nreq w)))))
               (endDate (resolve_range env (apiPeriod r) pj (clock env (Suc (nreq w))))) pgs"
  shows "expenses (fetchAll env r w) = concat (nonempty_prefix (take 50 pgs)) \<and>
         requests_of (new_events w (fetchAll env r w)) =
           period_request (apiPeriod r) #
           map (\<lambda>k. expenses_request
                      (startDate (resolve_range env (apiPeriod r) pj (clock env (Suc (nreq w)))))
                      (endDate (resolve_range env (apiPeriod r) pj (clock env (Suc (nreq w)))))
                      k 100)
               [1..<Suc (if pgs = [] then 1 else requests_needed (take 50 pgs))] \<and>
         \<not> loading (fetchAll env r w) \<and>
         periodGroups (fetchAll env r w) = data_of pj \<and>
         expensesDateRange (fetchAll env r w) =
           Some (resolve_range env (apiPeriod r) pj (clock env (Suc (nreq w))))"
proof -
  let ?q = "period_request (apiPeriod r)"
  let ?range = "resolve_range env (apiPeriod r) pj (clock env (Suc (nreq w)))"
  let ?s = "startDate ?range" and ?e = "endDate ?range"
  let ?pre = "[Fetch ?q, Response (status res), ReadJson]"
  let ?w3 = "w\<lparr>loading := True, nreq := Suc (nreq w), trace := trace w @ ?pre,
                periodGroups := data_of pj\<rparr>"
  let ?cnt = "if pgs = [] then 1 else requests_needed (take 50 pgs)"
  have loop: "\<exists>w4. page_loop env ?s ?e [] 1 (Fin 1) ?w3 =
                 (Normal (concat (nonempty_prefix (take 50 pgs))), w4) \<and>
               nreq w4 = nreq ?w3 + ?cnt"
  proof (cases "pgs = []")
    case False
    then have g: "js_le (Fin (of_nat 1)) (Fin 1) = (1 \<le> length pgs)"
      by (cases pgs) (simp_all add: js_le_def)
    have n: "nreq ?w3 = Suc (nreq w) + 1 - 1" by simp
    from page_loop_served [OF sv _ n g, of "[]"] False show ?thesis
      by simp
  next
    case True
    have guard: "js_le (Fin (of_nat 1)) (Fin 1) \<and> (1::nat) \<le> 50"
      by (simp add: js_le_def)
    from True have "(1::nat) \<le> max 1 (length pgs)" by simp
    from servesD [OF sv order_refl this] obtain rs j where
      r1: "server env (Suc (nreq w) + 1 - 1) (expenses_request ?s ?e 1 100) = Resolved rs" "ok rs"
        "json_result rs = Inr j"
        "j_data j = Some (if 1 \<le> length pgs then pgs ! (1 - 1) else [])"
        "ToNumber (j_pages j) = Fin (of_nat (length pgs))"
      by blast
    from r1(4) True have d: "data_of j = []" by (simp add: data_of_def)
    from r1(1) have s1: "server env (nreq ?w3) (expenses_request ?s ?e 1 100) = Resolved rs"
      by simp
    have "page_loop env ?s ?e [] 1 (Fin 1) ?w3 =
            (Normal [], ?w3\<lparr>nreq := Suc (nreq ?w3),
               trace := trace ?w3 @ [Fetch (expenses_request ?s ?e 1 100), Response (status rs), ReadJson]\<rparr>)"
      by (simp only: page_loop_step [OF guard, of env ?s ?e "[]" ?w3] s1)
         (simp add: r1(2,3) ok_not_401 [OF r1(2)] d)
    with True show ?thesis by (simp add: nonempty_prefix_def)
  qed
  then obtain w4 where w4:
    "page_loop env ?s ?e [] 1 (Fin 1) ?w3 = (Normal (concat (nonempty_prefix (take 50 pgs))), w4)"
    "nreq w4 = nreq ?w3 + ?cnt"
    by blast
  from page_loop_requests [OF w4(1)] obtain evs n where
    evs: "trace w4 = trace ?w3 @ evs"
      "requests_of evs = map (\<lambda>k. expenses_request ?s ?e k 100) [1..<1 + n]"
      "nreq w4 = nreq ?w3 + n"
    by blast
  from evs(3) w4(2) have n: "n = ?cnt" by simp
  from page_loop_frame [OF w4(1)] obtain evs' n' where
    "w4 = ?w3\<lparr>nreq := n', trace := trace ?w3 @ evs'\<rparr>"
    by blast
  then have pg: "periodGroups w4 = data_of pj"
    by simp
  from base srv okr js w4(1) ok_not_401 [OF okr]
  have fa: "fetchAll env r w =
      w4\<lparr>expenses := concat (nonempty_prefix (take 50 pgs)),
         expensesDateRange := Some ?range, loading := False\<rparr>"
    by (simp add: fetchAll_def fetchAll_try_step)
  from fa evs(1) have "new_events w (fetchAll env r w) = ?pre @ evs"
    by (simp add: new_events_def)
  with evs(2) n have "requests_of (new_events w (fetchAll env r w)) =
      ?q # map (\<lambda>k. expenses_request ?s ?e k 100) [1..<Suc ?cnt]"
    by simp
  with fa pg show ?thesis by simp
qed

lemma requests_needed_nonempty:
  "\<forall>p \<in> set xs. p \<noteq> [] \<Longrightarrow> requests_needed xs = length xs \<and> nonempty_prefix xs = xs"
  by (induction xs) (simp_all add: requests_needed_Cons nonempty_prefix_Cons nonempty_prefix_def)

lemma paging_server_serves: "serves (env_paging pgs) n s e pgs"
  by (simp add: serves_def list_all_iff page_response_def env_paging_def paging_server_def
      ok_def expenses_request_def ToNumber_def)

lemma requests_needed_le: "requests_needed xs \<le> length xs"
  by (simp add: requests_needed_def)

lemma env_paging_period:
  "truthy (API_BASE_URL (env_paging pgs))"
  "server (env_paging pgs) n (period_request p) =
     Resolved \<lparr>status = 200, text_body = Some [],
       json_result = Inr \<lparr>j_message = None, j_rangeStart = None, j_rangeEnd = None,
                           j_data = Some [], j_pages = Undefined\<rparr>\<rparr>"
  "ok \<lparr>status = 200, text_body = Some [],
       json_result = Inr \<lparr>j_message = None, j_rangeStart = None, j_rangeEnd = None,
                           j_data = Some [], j_pages = Undefined\<rparr>\<rparr>"
  by (simp_all add: env_paging_def paging_server_def period_request_def truthy_def ok_def)

text \<open>
  C1 as stated fails beyond the ceiling: a server that holds 5100 records in 51 pages of
  100 is asked for 50 pages (51 requests with the period request), and the list in memory
  has 5000 records.
\<close>

theorem fifty_one_pages_truncated:
  "length pages51 = 51 \<and> length (concat pages51) = 5100 \<and>
   length (expenses (fetchAll (env_paging pages51) idle_state idle_state)) = 5000 \<and>
   length (requests_of (new_events idle_state (fetchAll (env_paging pages51) idle_state idle_state))) = 51"
proof -
  let ?pj = "\<lparr>j_message = None, j_rangeStart = None, j_rangeEnd = None,
                           j_data = Some [], j_pages = Undefined\<rparr>"
  let ?res = "\<lparr>status = 200, text_body = Some [], json_result = Inr ?pj\<rparr>"
  have js: "json_result ?res = Inr ?pj" by simp
  note served = fetchAll_served [OF env_paging_period(1) env_paging_period(2) env_paging_period(3) js
      paging_server_serves, of pages51 idle_state idle_state]
  have ne: "\<forall>p \<in> set (take 50 pages51). p \<noteq> []"
    by (simp add: pages51_def)
  have tk: "take 50 pages51 = replicate 50 (replicate 100 rent_expense)"
    by (simp add: pages51_def)
  from requests_needed_nonempty [OF ne] tk
  have rn: "requests_needed (take 50 pages51) = 50"
    "nonempty_prefix (take 50 pages51) = replicate 50 (replicate 100 rent_expense)"
    by simp_all
  have p0: "pages51 \<noteq> []" "length pages51 = 51" by (simp_all add: pages51_def)
  have l0: "length (concat pages51) = 5100"
    by (simp add: pages51_def length_concat sum_list_replicate)
  have l1: "length (concat (replicate 50 (replicate 100 rent_expense))) = 5000"
    by (simp add: length_concat sum_list_replicate)
  from served rn p0 l0 l1 show ?thesis by simp
qed

text \<open>
  C1, amended. When the period request succeeds and the server holds the records in pages
  \<open>pgs\<close>, answering each page request with that page and the page count, the loader
  requests the pages 1, 2, ... with page size 100, in order: as many as there are pages,
  at most 50, one request when the server has no page, and none after a page that came
  back empty. The list in memory is the concatenation, in the server's order, of the
  pages requested. With between 1 and 50 pages, none of them empty, these are exactly the
  pages of the server and the list holds every record.
\<close>

theorem pagination_aggregation:
  assumes "truthy (API_BASE_URL env)"
    and "server env (nreq w) (period_request (apiPeriod r)) = Resolved res"
    and "ok res" and "json_result res = Inr pj"
    and "serves env (Suc (nreq w))
               (startDate (resolve_range env (apiPeriod r) pj (clock env (Suc (nreq w)))))
               (endDate (resolve_range env (apiPeriod r) pj (clock env (Suc (nreq w))))) pgs"
  shows "expenses (fetchAll env r w) = concat (nonempty_prefix (take 50 pgs)) \<and>
         requests_of (new_events w (fetchAll env r w)) =
           period_request (apiPeriod r) #
           map (\<lambda>k. expenses_request
                      (startDate (resolve_range env (apiPeriod r) pj (clock env (Suc (nreq w)))))
                      (endDate (resolve_range env (apiPeriod r) pj (clock env (Suc (nreq w)))))
                      k 100)
               [1..<Suc (if pgs = [] then 1 else requests_needed (take 50 pgs))] \<and>
         (if pgs = [] then 1 else requests_needed (take 50 pgs)) \<le> 50 \<and>
         ((\<forall>p \<in> set pgs. p \<noteq> []) \<and> pgs \<noteq> [] \<longrightarrow>
            requests_needed (take 50 pgs) = min (length pgs) 50 \<and>
            expenses (fetchAll env r w) = concat (take 50 pgs)) \<and>
         ((\<forall>p \<in> set pgs. p \<noteq> []) \<and> pgs \<noteq> [] \<and> length pgs \<le> 50 \<longrightarrow>
            requests_needed (take 50 pgs) = length pgs \<and>
            expenses (fetchAll env r w) = concat pgs)"
proof -
  note served = fetchAll_served [OF assms]
  have bound: "(if pgs = [] then 1 else requests_needed (take 50 pgs)) \<le> 50"
    using requests_needed_le [of "take 50 pgs"] by simp
  have full: "requests_needed (take 50 pgs) = min (length pgs) 50 \<and>
      expenses (fetchAll env r w) = concat (take 50 pgs)"
    if "\<forall>p \<in> set pgs. p \<noteq> []"
  proof -
    from that have "\<forall>p \<in> set (take 50 pgs). p \<noteq> []"
      by (meson in_set_takeD)
    from requests_needed_nonempty [OF this] served show ?thesis by simp
  qed
  have small: "requests_needed (take 50 pgs) = length pgs \<and>
      expenses (fetchAll env r w) = concat pgs"
    if "\<forall>p \<in> set pgs. p \<noteq> []" "length pgs \<le> 50"
    using full [OF that(1)] that(2) by simp
  from served bound full small show ?thesis by blast
qed

theorem pagination_aggregation_witness:
  "serves (env_paging pages2) 1
     (startDate (getPeriodDateRange utc_zone (clock0 1) ''monthly''))
     (endDate (getPeriodDateRange utc_zone (clock0 1) ''monthly'')) pages2 \<and>
   expenses (fetchAll (env_paging pages2) idle_state idle_state) =
     [rent_expense, rent_expense, rent_expense] \<and>
   requests_of (new_events idle_state (fetchAll (env_paging pages2) idle_state idle_state)) =
     [period_request ''monthly'',
      expenses_request (startDate (getPeriodDateRange utc_zone (clock0 1) ''monthly''))
                       (endDate (getPeriodDateRange utc_zone (clock0 1) ''monthly'')) 1 100,
      expenses_request (startDate (getPeriodDateRange utc_zone (clock0 1) ''monthly''))
                       (endDate (getPeriodDateRange utc_zone (clock0 1) ''monthly'')) 2 100]"
proof -
  let ?pj = "\<lparr>j_message = None, j_rangeStart = None, j_rangeEnd = None,
                           j_data = Some [], j_pages = Undefined\<rparr>"
  let ?res = "\<lparr>status = 200, text_body = Some [], json_result = Inr ?pj\<rparr>"
  have js: "json_result ?res = Inr ?pj" by simp
  have idle: "nreq idle_state = 0" "apiPeriod idle_state = ''monthly''"
    by (simp_all add: idle_state_def apiPeriod_def)
  have rr: "resolve_range (env_paging pages2) ''monthly'' ?pj (clock (env_paging pages2) (Suc 0)) =
      getPeriodDateRange utc_zone (clock0 1) ''monthly''"
    by (simp add: resolve_range_def server_date_def truthy_def env_paging_def Let_def)
  have p2: "pages2 \<noteq> []" "\<forall>p \<in> set pages2. p \<noteq> []" "length pages2 \<le> 50"
    "concat pages2 = [rent_expense, rent_expense, rent_expense]" "length pages2 = 2"
    by (simp_all add: pages2_def)
  have up: "[Suc 0..<2] = [Suc 0]" "nonempty_prefix pages2 = pages2"
    by (simp_all add: upt_conv_Cons nonempty_prefix_def pages2_def)
  from pagination_aggregation [OF env_paging_period(1) env_paging_period(2) env_paging_period(3) js
      paging_server_serves, of pages2 idle_state idle_state]
    paging_server_serves [of pages2 1 "startDate (getPeriodDateRange utc_zone (clock0 1) ''monthly'')"
      "endDate (getPeriodDateRange utc_zone (clock0 1) ''monthly'')"]
    idle rr p2 up
  show ?thesis by simp
qed

section \<open>Reload after a delete\<close>



section \<open>Mutations and the confirmation dialog\<close>

lemma handleSaveExpense_cases:
  obtains (rejected) msg where "handleSaveExpense env r w = w\<lparr>formError := msg\<rparr>"
  | (staged) p where "handleSaveExpense env r w = w\<lparr>formError := [], confirmDialog := Some (UpdateDialog p)\<rparr>"
      "p_isEdit p"
  | (create) "handleSaveExpense env r w = performSaveExpense env r (create_payload r) (w\<lparr>formError := []\<rparr>)"
      "trim (f_title (expenseForm r)) \<noteq> []" "f_expenseDate (expenseForm r) \<noteq> []"
      "positive_finite (toNumber (Str (f_amount (expenseForm r))))"
      "\<not> truthy (expense_id (editingExpense r))"
proof -
  let ?a = "toNumber (Str (f_amount (expenseForm r)))"
  consider (bad) "trim (f_title (expenseForm r)) = [] \<or> f_expenseDate (expenseForm r) = [] \<or>
           \<not> positive_finite ?a"
    | (edit) "trim (f_title (expenseForm r)) \<noteq> []" "f_expenseDate (expenseForm r) \<noteq> []"
        "positive_finite ?a" "truthy (expense_id (editingExpense r))"
    | (new) "trim (f_title (expenseForm r)) \<noteq> []" "f_expenseDate (expenseForm r) \<noteq> []"
        "positive_finite ?a" "\<not> truthy (expense_id (editingExpense r))"
    by blast
  then show thesis
  proof cases
    case bad
    then have "\<exists>msg. handleSaveExpense env r w = w\<lparr>formError := msg\<rparr>"
      using amount_check [of ?a]
      by (auto simp add: handleSaveExpense_def Let_def)
    then show ?thesis using rejected by blast
  next
    case edit
    then have "handleSaveExpense env r w =
        w\<lparr>formError := [], confirmDialog := Some (UpdateDialog
          \<lparr>p_isEdit = True, p_id = expense_id (editingExpense r),
           p_title = trim (f_title (expenseForm r)),
           p_description = trim (f_description (expenseForm r)),
           p_amount = ?a, p_expenseDate = f_expenseDate (expenseForm r)\<rparr>)\<rparr>"
      using amount_check [of ?a]
      by (simp add: handleSaveExpense_def Let_def)
    then show ?thesis by (rule staged) simp
  next
    case new
    then have "handleSaveExpense env r w =
        performSaveExpense env r (create_payload r) (w\<lparr>formError := []\<rparr>)"
      using amount_check [of ?a]
      by (simp add: handleSaveExpense_def Let_def create_payload_def)
    then show ?thesis using new by (rule create)
  qed
qed

lemma create_payload_POST: "save_request (create_payload r) =
    \<lparr>rmethod = POST, endpoint = CollectionEP,
     rbody = Some \<lparr>b_title = trim (f_title (expenseForm r)),
                   b_description = (if trim (f_description (expenseForm r)) = [] then None
                                    else Some (trim (f_description (expenseForm r)))),
                   b_amount = toNumber (Str (f_amount (expenseForm r))),
                   b_expenseDate = f_expenseDate (expenseForm r)\<rparr>\<rparr>"
  by (simp add: save_request_def create_payload_def)

lemma handleSaveExpense_requests:
  obtains evs where "trace (handleSaveExpense env r w) = trace w @ evs"
    "\<forall>q \<in> set (requests_of evs). rmethod q = GET \<or> rmethod q = POST"
proof (cases rule: handleSaveExpense_cases [of env r w])
  case (rejected msg)
  then have "trace (handleSaveExpense env r w) = trace w @ []" by simp
  then show ?thesis by (rule that) simp
next
  case (staged p)
  then have "trace (handleSaveExpense env r w) = trace w @ []" by simp
  then show ?thesis by (rule that) simp
next
  case create
  obtain evs where evs:
    "trace (performSaveExpense env r (create_payload r) (w\<lparr>formError := []\<rparr>)) =
       trace (w\<lparr>formError := []\<rparr>) @ evs"
    "\<forall>q \<in> set (requests_of evs). q = save_request (create_payload r) \<or> rmethod q = GET"
    by (rule performSaveExpense_requests)
  from evs(1) create(1) have "trace (handleSaveExpense env r w) = trace w @ evs" by simp
  moreover from evs(2) have "\<forall>q \<in> set (requests_of evs). rmethod q = GET \<or> rmethod q = POST"
    by (auto simp add: create_payload_POST)
  ultimately show ?thesis by (rule that)
qed

lemma handleSaveExpense_dialog:
  assumes "confirmDialog (handleSaveExpense env r w) = Some d"
  shows "confirmDialog w = Some d \<or> stages SubmitForm d"
proof (cases rule: handleSaveExpense_cases [of env r w])
  case (rejected msg)
  with assms show ?thesis by simp
next
  case (staged p)
  with assms show ?thesis by (auto simp add: stages_def)
next
  case create
  with assms performSaveExpense_dialog [of env r "create_payload r" "w\<lparr>formError := []\<rparr>"]
  show ?thesis by auto
qed

lemma select_period_GET:
  obtains evs where "trace (select_period env p w) = trace w @ evs"
    "\<forall>q \<in> set (requests_of evs). rmethod q = GET"
proof (cases "apiPeriod (w\<lparr>selectedPeriod := p\<rparr>) = apiPeriod w")
  case True
  then have "trace (select_period env p w) = trace w @ []"
    by (simp add: select_period_def Let_def)
  then show ?thesis by (rule that) simp
next
  case False
  obtain evs where evs: "trace (fetchAll env (w\<lparr>selectedPeriod := p\<rparr>) (w\<lparr>selectedPeriod := p\<rparr>)) =
      trace (w\<lparr>selectedPeriod := p\<rparr>) @ evs" "\<forall>q \<in> set (requests_of evs). rmethod q = GET"
    by (rule fetchAll_GET)
  from False evs(1) have "trace (select_period env p w) = trace w @ evs"
    by (simp add: select_period_def Let_def)
  with evs(2) show ?thesis by (rule that [rotated])
qed

lemma select_period_dialog: "confirmDialog (select_period env p w) = confirmDialog w"
proof -
  have "confirmDialog (fetchAll env r v) = confirmDialog v" for r v
    by (rule fetchAll_cases [of env r v])
  then show ?thesis by (simp add: select_period_def Let_def)
qed

lemma ui_step_requests:
  "\<exists>evs. trace (ui_step env ev w) = trace w @ evs \<and>
     (\<forall>q \<in> set (requests_of evs).
       rmethod q = GET \<or> (ev = SubmitForm \<and> rmethod q = POST) \<or>
       (ev = ConfirmOk \<and> (\<exists>d. confirmDialog w = Some d \<and> q = pending_request d)))"
proof -
  have silent: ?thesis if "trace (ui_step env ev w) = trace w @ evs" "requests_of evs = []" for evs
    using that by (intro exI [of _ evs]) simp
  have loads: ?thesis if "trace (ui_step env ev w) = trace w @ evs"
    "\<forall>q \<in> set (requests_of evs). rmethod q = GET" for evs
    using that by (intro exI [of _ evs]) blast
  show ?thesis
  proof (cases ev)
    case ClickLogout
    then show ?thesis
      by (intro silent [of "[Redirect ''/admin/login'']"]) (simp_all add: ui_step_def handleLogout_def log_def)
  next
    case ClickMonthly
    obtain evs where "trace (select_period env ''monthly'' w) = trace w @ evs"
      "\<forall>q \<in> set (requests_of evs). rmethod q = GET"
      by (rule select_period_GET)
    with ClickMonthly show ?thesis by (intro loads [of evs]) (simp_all add: ui_step_def)
  next
    case ClickSixMonths
    obtain evs where "trace (select_period env ''sixMonths'' w) = trace w @ evs"
      "\<forall>q \<in> set (requests_of evs). rmethod q = GET"
      by (rule select_period_GET)
    with ClickSixMonths show ?thesis by (intro loads [of evs]) (simp_all add: ui_step_def)
  next
    case ClickYearly
    obtain evs where "trace (select_period env ''yearly'' w) = trace w @ evs"
      "\<forall>q \<in> set (requests_of evs). rmethod q = GET"
      by (rule select_period_GET)
    with ClickYearly show ?thesis by (intro loads [of evs]) (simp_all add: ui_step_def)
  next
    case ClickAdd
    then show ?thesis
      by (intro silent [of "[]"]) (simp_all add: ui_step_def openCreateModal_def)
  next
    case (ClickEdit ex)
    then show ?thesis
      by (intro silent [of "[]"]) (simp_all add: ui_step_def openEditModal_def)
  next
    case (ClickDelete ex)
    then show ?thesis
      by (intro silent [of "[]"]) (simp_all add: ui_step_def handleDeleteExpense_def split: option.splits)
  next
    case (TypeTitle v)
    then show ?thesis by (intro silent [of "[]"]) (simp_all add: ui_step_def)
  next
    case (TypeDescription v)
    then show ?thesis by (intro silent [of "[]"]) (simp_all add: ui_step_def)
  next
    case (TypeAmount v)
    then show ?thesis by (intro silent [of "[]"]) (simp_all add: ui_step_def)
  next
    case (PickDate v)
    then show ?thesis by (intro silent [of "[]"]) (simp_all add: ui_step_def)
  next
    case SubmitForm
    show ?thesis
    proof (cases "showExpenseModal w \<and> \<not> saving w")
      case False
      with SubmitForm show ?thesis by (intro silent [of "[]"]) (auto simp add: ui_step_def)
    next
      case True
      obtain evs where evs: "trace (handleSaveExpense env w w) = trace w @ evs"
        "\<forall>q \<in> set (requests_of evs). rmethod q = GET \<or> rmethod q = POST"
        by (rule handleSaveExpense_requests)
      from True SubmitForm evs(1) have "trace (ui_step env ev w) = trace w @ evs"
        by (simp add: ui_step_def)
      moreover from evs(2) SubmitForm have "\<forall>q \<in> set (requests_of evs).
         rmethod q = GET \<or> (ev = SubmitForm \<and> rmethod q = POST) \<or>
         (ev = ConfirmOk \<and> (\<exists>d. confirmDialog w = Some d \<and> q = pending_request d))"
        by blast
      ultimately show ?thesis by blast
    qed
  next
    case ClickCancel
    then show ?thesis
      by (intro silent [of "[]"]) (simp_all add: ui_step_def closeModal_def)
  next
    case ConfirmCancel
    then show ?thesis by (intro silent [of "[]"]) (simp_all add: ui_step_def)
  next
    case ConfirmOk
    show ?thesis
    proof (cases "saving w")
      case True
      with ConfirmOk show ?thesis by (intro silent [of "[]"]) (simp_all add: ui_step_def)
    next
      case False
      show ?thesis
      proof (cases "confirmDialog w")
        case None
        with False ConfirmOk show ?thesis
          by (intro silent [of "[]"]) (simp_all add: ui_step_def confirm_onClick_def)
      next
        case (Some d)
        show ?thesis
        proof (cases d)
          case (UpdateDialog p)
          obtain evs where evs: "trace (performSaveExpense env w p w) = trace w @ evs"
            "\<forall>q \<in> set (requests_of evs). q = save_request p \<or> rmethod q = GET"
            by (rule performSaveExpense_requests)
          from False ConfirmOk Some UpdateDialog evs(1)
          have "trace (ui_step env ev w) = trace w @ evs"
            by (simp add: ui_step_def confirm_onClick_def)
          moreover from evs(2) ConfirmOk Some UpdateDialog have "\<forall>q \<in> set (requests_of evs).
             rmethod q = GET \<or> (ev = SubmitForm \<and> rmethod q = POST) \<or>
             (ev = ConfirmOk \<and> (\<exists>d. confirmDialog w = Some d \<and> q = pending_request d))"
            by (auto simp add: pending_request_def)
          ultimately show ?thesis by blast
        next
          case (DeleteDialog x)
          obtain evs where evs: "trace (performDeleteExpense env w x w) = trace w @ evs"
            "\<forall>q \<in> set (requests_of evs).
               q = delete_request (or_empty (expense_id (Some x))) \<or> rmethod q = GET"
            by (rule performDeleteExpense_requests)
          from False ConfirmOk Some DeleteDialog evs(1)
          have "trace (ui_step env ev w) = trace w @ evs"
            by (simp add: ui_step_def confirm_onClick_def)
          moreover from evs(2) ConfirmOk Some DeleteDialog have "\<forall>q \<in> set (requests_of evs).
             rmethod q = GET \<or> (ev = SubmitForm \<and> rmethod q = POST) \<or>
             (ev = ConfirmOk \<and> (\<exists>d. confirmDialog w = Some d \<and> q = pending_request d))"
            by (auto simp add: pending_request_def)
          ultimately show ?thesis by blast
        qed
      qed
    qed
  qed
qed

lemma ui_step_dialog:
  assumes "confirmDialog (ui_step env ev w) = Some d"
  shows "confirmDialog w = Some d \<or> stages ev d"
proof (cases ev)
  case ClickLogout
  with assms show ?thesis by (simp add: ui_step_def handleLogout_def log_def)
next
  case ClickMonthly
  with assms show ?thesis by (simp add: ui_step_def select_period_dialog)
next
  case ClickSixMonths
  with assms show ?thesis by (simp add: ui_step_def select_period_dialog)
next
  case ClickYearly
  with assms show ?thesis by (simp add: ui_step_def select_period_dialog)
next
  case ClickAdd
  with assms show ?thesis by (simp add: ui_step_def openCreateModal_def)
next
  case (ClickEdit ex)
  with assms show ?thesis by (simp add: ui_step_def openEditModal_def)
next
  case (ClickDelete ex)
  with assms show ?thesis
    by (cases ex) (auto simp add: ui_step_def handleDeleteExpense_def stages_def)
next
  case (TypeTitle v)
  with assms show ?thesis by (simp add: ui_step_def split: if_splits)
next
  case (TypeDescription v)
  with assms show ?thesis by (simp add: ui_step_def split: if_splits)
next
  case (TypeAmount v)
  with assms show ?thesis by (simp add: ui_step_def split: if_splits)
next
  case (PickDate v)
  with assms show ?thesis by (simp add: ui_step_def split: if_splits)
next
  case SubmitForm
  show ?thesis
  proof (cases "showExpenseModal w \<and> \<not> saving w")
    case True
    with assms SubmitForm have "confirmDialog (handleSaveExpense env w w) = Some d"
      by (simp add: ui_step_def)
    from handleSaveExpense_dialog [OF this] SubmitForm show ?thesis by simp
  next
    case False
    with assms SubmitForm show ?thesis by (auto simp add: ui_step_def)
  qed
next
  case ClickCancel
  with assms show ?thesis by (simp add: ui_step_def closeModal_def split: if_splits)
next
  case ConfirmCancel
  with assms show ?thesis by (simp add: ui_step_def split: if_splits)
next
  case ConfirmOk
  show ?thesis
  proof (cases "saving w")
    case True
    with assms ConfirmOk show ?thesis by (simp add: ui_step_def)
  next
    case False
    show ?thesis
    proof (cases "confirmDialog w")
      case None
      with False assms ConfirmOk show ?thesis by (simp add: ui_step_def confirm_onClick_def)
    next
      case (Some d')
      show ?thesis
      proof (cases d')
        case (UpdateDialog p)
        with False assms ConfirmOk Some performSaveExpense_dialog [of env w p w]
        show ?thesis by (auto simp add: ui_step_def confirm_onClick_def)
      next
        case (DeleteDialog x)
        with False assms ConfirmOk Some performDeleteExpense_dialog [of env w x w]
        show ?thesis by (auto simp add: ui_step_def confirm_onClick_def)
      qed
    qed
  qed
qed

lemma run_append: "run env (xs @ ys) w = run env ys (run env xs w)"
  by (induction xs arbitrary: w) simp_all

lemma mounted_dialog: "confirmDialog (mounted env) = None"
proof -
  have "confirmDialog (fetchAll env (initial env) (initial env)) = confirmDialog (initial env)"
    by (rule fetchAll_cases [of env "initial env" "initial env"])
  then show ?thesis by (simp add: mounted_def initial_def)
qed

lemma staged_before:
  "confirmDialog (run env evs (mounted env)) = Some d \<Longrightarrow>
     \<exists>pre st post. evs = pre @ st # post \<and> stages st d \<and>
        confirmDialog (run env pre (mounted env)) \<noteq> Some d \<and>
        (\<forall>k\<le>length post. confirmDialog (run env (pre @ st # take k post) (mounted env)) = Some d)"
proof (induction evs rule: rev_induct)
  case Nil
  then show ?case by (simp add: mounted_dialog)
next
  case (snoc ev evs)
  from snoc.prems have after: "confirmDialog (ui_step env ev (run env evs (mounted env))) = Some d"
    by (simp add: run_append)
  show ?case
  proof (cases "confirmDialog (run env evs (mounted env)) = Some d")
    case True
    from snoc.IH [OF True] obtain pre st post where
      h: "evs = pre @ st # post" "stages st d"
        "confirmDialog (run env pre (mounted env)) \<noteq> Some d"
        "\<forall>k\<le>length post. confirmDialog (run env (pre @ st # take k post) (mounted env)) = Some d"
      by blast
    have "confirmDialog (run env (pre @ st # take k (post @ [ev])) (mounted env)) = Some d"
      if "k \<le> length (post @ [ev])" for k
    proof (cases "k \<le> length post")
      case True
      with h(4) show ?thesis by simp
    next
      case False
      with that have "take k (post @ [ev]) = post @ [ev]" by simp
      with snoc.prems h(1) show ?thesis by simp
    qed
    with h(1,2,3) have "evs @ [ev] = pre @ st # (post @ [ev]) \<and> stages st d \<and>
        confirmDialog (run env pre (mounted env)) \<noteq> Some d \<and>
        (\<forall>k\<le>length (post @ [ev]).
           confirmDialog (run env (pre @ st # take k (post @ [ev])) (mounted env)) = Some d)"
      by simp
    then show ?thesis by blast
  next
    case False
    with ui_step_dialog [OF after] have "stages ev d" by simp
    with False snoc.prems have "evs @ [ev] = evs @ ev # [] \<and> stages ev d \<and>
        confirmDialog (run env evs (mounted env)) \<noteq> Some d \<and>
        (\<forall>k\<le>length ([]::ui_event list).
           confirmDialog (run env (evs @ ev # take k []) (mounted env)) = Some d)"
      by simp
    then show ?thesis by blast
  qed
qed

text \<open>
  C4. In every run of the page from its mount, a step that sends a PUT or a DELETE
  request is a click on the confirm button of the dialog, and the dialog then holds a
  pending action \<open>d\<close> whose payload determines the request: an earlier step of the run,
  a form submission or a click on a row's delete button, staged \<open>d\<close>, and \<open>d\<close> stayed
  in the dialog from then until the click. A valid form for a new expense, in contrast,
  sends its POST request in the very step that submits the form, whatever the dialog
  holds.
\<close>

theorem mutation_only_after_staged_confirmation:
  "(\<forall>q \<in> set (requests_of (new_events (run env evs (mounted env))
                                        (ui_step env ev (run env evs (mounted env))))).
      rmethod q = PUT \<or> rmethod q = DELETE \<longrightarrow>
        ev = ConfirmOk \<and>
        (\<exists>d pre st post.
            evs = pre @ st # post \<and> stages st d \<and>
            confirmDialog (run env pre (mounted env)) \<noteq> Some d \<and>
            (\<forall>k\<le>length post.
               confirmDialog (run env (pre @ st # take k post) (mounted env)) = Some d) \<and>
            q = pending_request d)) \<and>
   (showExpenseModal w \<and> \<not> saving w \<and> truthy (API_BASE_URL env) \<and>
    trim (f_title (expenseForm w)) \<noteq> [] \<and> f_expenseDate (expenseForm w) \<noteq> [] \<and>
    positive_finite (toNumber (Str (f_amount (expenseForm w)))) \<and>
    \<not> truthy (expense_id (editingExpense w)) \<longrightarrow>
      rmethod (save_request (create_payload w)) = POST \<and>
      (\<exists>rest. new_events w (ui_step env SubmitForm w) =
                Fetch (save_request (create_payload w)) # rest))"
proof -
  let ?w = "run env evs (mounted env)"
  have part1: "\<forall>q \<in> set (requests_of (new_events ?w (ui_step env ev ?w))).
      rmethod q = PUT \<or> rmethod q = DELETE \<longrightarrow>
        ev = ConfirmOk \<and>
        (\<exists>d pre st post.
            evs = pre @ st # post \<and> stages st d \<and>
            confirmDialog (run env pre (mounted env)) \<noteq> Some d \<and>
            (\<forall>k\<le>length post.
               confirmDialog (run env (pre @ st # take k post) (mounted env)) = Some d) \<and>
            q = pending_request d)"
  proof (intro ballI impI)
    fix q
    assume q: "q \<in> set (requests_of (new_events ?w (ui_step env ev ?w)))"
      and m: "rmethod q = PUT \<or> rmethod q = DELETE"
    from ui_step_requests [of env ev ?w] obtain es where
      es: "trace (ui_step env ev ?w) = trace ?w @ es"
        "\<forall>q \<in> set (requests_of es).
           rmethod q = GET \<or> (ev = SubmitForm \<and> rmethod q = POST) \<or>
           (ev = ConfirmOk \<and> (\<exists>d. confirmDialog ?w = Some d \<and> q = pending_request d))"
      by blast
    from es(1) have "new_events ?w (ui_step env ev ?w) = es" by (rule new_eventsI)
    with q es(2) m obtain d where
      d: "ev = ConfirmOk" "confirmDialog ?w = Some d" "q = pending_request d"
      by auto
    from staged_before [OF d(2)] d(1,3)
    show "ev = ConfirmOk \<and>
        (\<exists>d pre st post.
            evs = pre @ st # post \<and> stages st d \<and>
            confirmDialog (run env pre (mounted env)) \<noteq> Some d \<and>
            (\<forall>k\<le>length post.
               confirmDialog (run env (pre @ st # take k post) (mounted env)) = Some d) \<and>
            q = pending_request d)"
      by blast
  qed
  have part2: "showExpenseModal w \<and> \<not> saving w \<and> truthy (API_BASE_URL env) \<and>
    trim (f_title (expenseForm w)) \<noteq> [] \<and> f_expenseDate (expenseForm w) \<noteq> [] \<and>
    positive_finite (toNumber (Str (f_amount (expenseForm w)))) \<and>
    \<not> truthy (expense_id (editingExpense w)) \<longrightarrow>
      rmethod (save_request (create_payload w)) = POST \<and>
      (\<exists>rest. new_events w (ui_step env SubmitForm w) =
                Fetch (save_request (create_payload w)) # rest)"
  proof
    assume h: "showExpenseModal w \<and> \<not> saving w \<and> truthy (API_BASE_URL env) \<and>
      trim (f_title (expenseForm w)) \<noteq> [] \<and> f_expenseDate (expenseForm w) \<noteq> [] \<and>
      positive_finite (toNumber (Str (f_amount (expenseForm w)))) \<and>
      \<not> truthy (expense_id (editingExpense w))"
    then have base: "truthy (API_BASE_URL env)" by simp
    from h amount_check [of "toNumber (Str (f_amount (expenseForm w)))"]
    have "ui_step env SubmitForm w =
        performSaveExpense env w (create_payload w) (w\<lparr>formError := []\<rparr>)"
      by (simp add: ui_step_def handleSaveExpense_def Let_def create_payload_def)
    moreover from performSaveExpense_events [OF base, of w "create_payload w" "w\<lparr>formError := []\<rparr>"]
    obtain rest where
      "trace (performSaveExpense env w (create_payload w) (w\<lparr>formError := []\<rparr>)) =
         trace w @ Fetch (save_request (create_payload w)) # rest"
      by auto
    ultimately have "new_events w (ui_step env SubmitForm w) =
        Fetch (save_request (create_payload w)) # rest"
      by (simp add: new_events_def)
    then show "rmethod (save_request (create_payload w)) = POST \<and>
      (\<exists>rest. new_events w (ui_step env SubmitForm w) =
                Fetch (save_request (create_payload w)) # rest)"
      by (simp add: create_payload_POST)
  qed
  from part1 part2 show ?thesis by (rule conjI)
qed

theorem mutation_only_after_staged_confirmation_witness:
  "delete_request ''65f0a1'' \<in>
     set (requests_of
       (new_events (run (env_paging pages2) [ClickDelete (Some rent_expense)] (mounted (env_paging pages2)))
          (ui_step (env_paging pages2) ConfirmOk
             (run (env_paging pages2) [ClickDelete (Some rent_expense)] (mounted (env_paging pages2)))))) \<and>
   rmethod (delete_request ''65f0a1'') = DELETE \<and>
   (\<exists>d pre st post.
      [ClickDelete (Some rent_expense)] = pre @ st # post \<and> stages st d \<and>
      delete_request ''65f0a1'' = pending_request d) \<and>
   showExpenseModal create_form_state \<and> \<not> saving create_form_state \<and>
   trim (f_title (expenseForm create_form_state)) \<noteq> [] \<and>
   positive_finite (toNumber (Str (f_amount (expenseForm create_form_state)))) \<and>
   \<not> truthy (expense_id (editingExpense create_form_state)) \<and>
   (\<exists>rest. new_events create_form_state (ui_step (env_paging pages2) SubmitForm create_form_state) =
      Fetch \<lparr>rmethod = POST, endpoint = CollectionEP,
             rbody = Some \<lparr>b_title = ''Rent'', b_description = None, b_amount = Fin 100,
                           b_expenseDate = ''2024-03-01''\<rparr>\<rparr> # rest)"
proof -
  let ?env = "env_paging pages2"
  let ?W = "run ?env [ClickDelete (Some rent_expense)] (mounted ?env)"
  let ?del = "delete_request ''65f0a1''"
  note main = mutation_only_after_staged_confirmation
    [of ?env "[ClickDelete (Some rent_expense)]" ConfirmOk create_form_state]
  have ident: "truthy (expense_id (Some rent_expense))"
    and i: "or_empty (expense_id (Some rent_expense)) = ''65f0a1''"
    by (simp_all add: expense_id_def rent_expense_def js_or_def truthy_def or_empty_def)
  have sv: "saving (mounted ?env) = False"
  proof -
    have "saving (fetchAll ?env (initial ?env) (initial ?env)) = saving (initial ?env)"
      by (rule fetchAll_cases [of ?env "initial ?env" "initial ?env"])
    then show ?thesis by (simp add: mounted_def initial_def)
  qed
  have W: "?W = (mounted ?env)\<lparr>confirmDialog := Some (DeleteDialog rent_expense)\<rparr>"
    by (simp add: ui_step_def handleDeleteExpense_def)
  from W sv have click: "ui_step ?env ConfirmOk ?W = performDeleteExpense ?env ?W rent_expense ?W"
    by (simp add: ui_step_def confirm_onClick_def)
  from performDeleteExpense_events [OF env_paging_period(1) ident, of pages2 ?W ?W] i
  obtain rest where "trace (performDeleteExpense ?env ?W rent_expense ?W) = trace ?W @ Fetch ?del # rest"
    by auto
  with click have "new_events ?W (ui_step ?env ConfirmOk ?W) = Fetch ?del # rest"
    by (simp only: new_events_def) simp
  then have mem: "?del \<in> set (requests_of (new_events ?W (ui_step ?env ConfirmOk ?W)))"
    by simp
  have del: "rmethod ?del = DELETE" by (simp add: delete_request_def)
  from main mem del have staged: "\<exists>d pre st post.
      [ClickDelete (Some rent_expense)] = pre @ st # post \<and> stages st d \<and>
      ?del = pending_request d"
    by blast
  have form: "showExpenseModal create_form_state" "\<not> saving create_form_state"
    "trim (f_title (expenseForm create_form_state)) \<noteq> []"
    "f_expenseDate (expenseForm create_form_state) \<noteq> []"
    "\<not> truthy (expense_id (editingExpense create_form_state))"
    by (simp_all add: create_form_state_def idle_state_def trim_def is_ws_def expense_id_def truthy_def)
  have amt: "toNumber (Str (f_amount (expenseForm create_form_state))) = Fin 100"
    by (simp add: create_form_state_def toNumber_def ToNumber_def StringToNumber_def trim_def is_ws_def
        radix_prefix_def unsigned_decimal_def is_digit_def digit_of_def exponent_part_def
        scale10_def radix_value_def round_double_def isFinite_def)
  then have pos: "positive_finite (toNumber (Str (f_amount (expenseForm create_form_state))))"
    by (simp add: positive_finite_def)
  have req: "save_request (create_payload create_form_state) =
      \<lparr>rmethod = POST, endpoint = CollectionEP,
             rbody = Some \<lparr>b_title = ''Rent'', b_description = None, b_amount = Fin 100,
                           b_expenseDate = ''2024-03-01''\<rparr>\<rparr>"
    by (simp only: create_payload_POST amt)
       (simp add: create_form_state_def idle_state_def trim_def is_ws_def)
  from main form pos env_paging_period(1) [of pages2]
  have "\<exists>rest. new_events create_form_state (ui_step ?env SubmitForm create_form_state) =
      Fetch (save_request (create_payload create_form_state)) # rest"
    by blast
  with req have post: "\<exists>rest. new_events create_form_state (ui_step ?env SubmitForm create_form_state) =
      Fetch \<lparr>rmethod = POST, endpoint = CollectionEP,
             rbody = Some \<lparr>b_title = ''Rent'', b_description = None, b_amount = Fin 100,
                           b_expenseDate = ''2024-03-01''\<rparr>\<rparr> # rest"
    by simp
  from mem del staged form(1,2,3) pos form(5) post show ?thesis
    by (intro conjI)
qed

end
